theory Spec2Isabelle
  imports Complex_Main "HOL-Library.AList"
begin

section \<open>Python values: exceptions, dictionaries, numbers\<close>

text \<open>
  The portfolio tracker of \<^verbatim>\<open>main.py\<close> is embedded function by function.
  A raised exception is the \<open>Inl\<close> branch of a sum.
\<close>

datatype error =
  KeyError | ValueError | AttributeError | IndexError | IllegalMonthError | OverflowError

text \<open>
  Python \<^verbatim>\<open>int\<close> is \<^typ>\<open>int\<close>. The value of a Python \<^verbatim>\<open>float\<close> is a
  \<^typ>\<open>real\<close>. The products, quotients and differences of \<open>process_trade\<close> and of
  the metrics are the exact ones: their rounding to binary64 is not modelled, and neither
  is a float result beyond the largest double (Python gives an infinity there, without
  an exception). What is modelled of floats:
  \<^item> the conversion of an \<^verbatim>\<open>int\<close> operand in \<^verbatim>\<open>float * int\<close>,
    \<^verbatim>\<open>float / int\<close>, which raises \<^verbatim>\<open>OverflowError\<close> when the integer rounds to
    \<open>2 ^ 1024\<close> or more, that is from \<open>2 ^ 1024 - 2 ^ 970\<close> on (\<open>float_of_int\<close>);
  \<^item> whether the cost of an asset is still the \<^verbatim>\<open>int\<close> 0 the constructor assigned or
    a float (\<open>number\<close>): \<^verbatim>\<open>0 / qty\<close> on integers converts nothing and cannot
    overflow;
  \<^item> the addition of the running totals of \<open>sum_profits_costs\<close>, a parameter \<open>fadd\<close> of
    the model, with binary64 addition \<open>double_add\<close> and exact addition as instances;
  \<^item> the results of \<^verbatim>\<open>np.mean\<close> and \<^verbatim>\<open>np.std\<close> in \<open>get_sharpe_ratio\<close>,
    parameters of the model: its branch is taken on the standard deviation numpy computes
    in binary64.
  Where numpy would produce a non-finite float (NaN or an infinity) the model has \<open>None\<close>.
\<close>

datatype number = Int0 | Float real

fun num_value :: "number \<Rightarrow> real" where
  "num_value Int0 = 0"
| "num_value (Float x) = x"

definition float_of_int :: "int \<Rightarrow> error + real" where
  "float_of_int i =
     (if \<bar>i\<bar> < 2 ^ 1024 - 2 ^ 970 then Inr (real_of_int i) else Inl OverflowError)"

text \<open>
  Binary64 rounding, to nearest with ties to even: the spacing of the doubles around \<open>x\<close>
  is \<open>2\<close> to the power \<open>ulp_exponent x\<close>, 52 below the binary exponent of \<open>x\<close> and
  constant below \<open>2 ^ - 1022\<close>. \<open>double_add\<close> is the float addition of two doubles.
\<close>

definition round_half_even :: "real \<Rightarrow> int" where
  "round_half_even y =
     (let f = \<lfloor>y\<rfloor> in
      if y - of_int f < 1 / 2 then f
      else if 1 / 2 < y - of_int f then f + 1
      else if even f then f else f + 1)"

definition ulp_exponent :: "real \<Rightarrow> int" where
  "ulp_exponent x = max \<lfloor>log 2 \<bar>x\<bar>\<rfloor> (- 1022) - 52"

definition rnd :: "real \<Rightarrow> real" where
  "rnd x = (if x = 0 then 0
            else of_int (round_half_even (x / 2 powi ulp_exponent x)) * 2 powi ulp_exponent x)"

definition double_add :: "real \<Rightarrow> real \<Rightarrow> real" where
  "double_add x y = rnd (x + y)"

text \<open>
  A \<^verbatim>\<open>dict\<close> is an association list in insertion order. \<open>getitem\<close> is
  \<^verbatim>\<open>d[k]\<close>, \<open>setitem\<close> is \<^verbatim>\<open>d[k] = v\<close> (an existing key keeps its place),
  \<open>setdefault\<close> is \<^verbatim>\<open>d.setdefault(k, v)\<close>. The nested dictionaries of the program are
  mutated through the reference that \<^verbatim>\<open>setdefault\<close> returns; \<open>setdefault_in k dflt f\<close>
  is \<^verbatim>\<open>f(d.setdefault(k, dflt))\<close> where \<open>f\<close> mutates the inner dictionary in place.
\<close>

type_synonym ('k, 'v) dict = "('k \<times> 'v) list"

definition keys :: "('k, 'v) dict \<Rightarrow> 'k list" where
  "keys d = map fst d"

definition getitem :: "('k, 'v) dict \<Rightarrow> 'k \<Rightarrow> error + 'v" where
  "getitem d k = (case map_of d k of None \<Rightarrow> Inl KeyError | Some v \<Rightarrow> Inr v)"

definition setitem :: "'k \<Rightarrow> 'v \<Rightarrow> ('k, 'v) dict \<Rightarrow> ('k, 'v) dict" where
  "setitem k v d = AList.update k v d"

definition setdefault :: "'k \<Rightarrow> 'v \<Rightarrow> ('k, 'v) dict \<Rightarrow> ('k, 'v) dict" where
  "setdefault k v d = (case map_of d k of None \<Rightarrow> d @ [(k, v)] | Some _ \<Rightarrow> d)"

definition setdefault_in :: "'k \<Rightarrow> 'v \<Rightarrow> ('v \<Rightarrow> 'v) \<Rightarrow> ('k, 'v) dict \<Rightarrow> ('k, 'v) dict" where
  "setdefault_in k dflt f d =
     setitem k (f (case map_of d k of None \<Rightarrow> dflt | Some v \<Rightarrow> v)) d"

section \<open>Constants\<close>

definition EPS :: real where
  "EPS = 1 / 1000000"

definition BUY :: string where
  "BUY = ''BUY''"

definition SELL :: string where
  "SELL = ''SELL''"

definition RISK_FREE_RATE :: real where
  "RISK_FREE_RATE = 2 / 100"

section \<open>Trade events and the trade history\<close>

record buy =
  buy_ticker :: string
  buy_price :: real
  buy_qty :: int

definition Buy :: "string \<Rightarrow> real \<Rightarrow> int \<Rightarrow> buy" where
  "Buy t p n = \<lparr>buy_ticker = t, buy_price = p, buy_qty = n\<rparr>"

definition buy_cost :: "buy \<Rightarrow> real" where
  "buy_cost b = buy_price b * real_of_int (buy_qty b)"

record sell =
  sell_ticker :: string
  sell_price :: real
  sell_qty :: int
  sell_profit :: real
  sell_cost :: real

definition Sell :: "string \<Rightarrow> real \<Rightarrow> int \<Rightarrow> real \<Rightarrow> real \<Rightarrow> sell" where
  "Sell t p n pr c =
     \<lparr>sell_ticker = t, sell_price = p, sell_qty = n, sell_profit = pr, sell_cost = c\<rparr>"

type_synonym 'e history = "(int, (int, (int, (string, 'e) dict) dict) dict) dict"

record TradeHistory =
  buy_history :: "buy history"
  sell_history :: "sell history"

definition TradeHistory_init :: TradeHistory where
  "TradeHistory_init = \<lparr>buy_history = [], sell_history = []\<rparr>"

definition history_add :: "int \<Rightarrow> int \<Rightarrow> int \<Rightarrow> string \<Rightarrow> 'e \<Rightarrow> 'e history \<Rightarrow> 'e history" where
  "history_add year month day ticker e h =
     setdefault_in year [] (setdefault_in month [] (setdefault_in day [] (setdefault ticker e))) h"

definition history_get :: "int \<Rightarrow> int \<Rightarrow> int \<Rightarrow> string \<Rightarrow> 'e history \<Rightarrow> 'e option" where
  "history_get year month day ticker h =
     (case map_of h year of None \<Rightarrow> None | Some ms \<Rightarrow>
      (case map_of ms month of None \<Rightarrow> None | Some ds \<Rightarrow>
       (case map_of ds day of None \<Rightarrow> None | Some ts \<Rightarrow> map_of ts ticker)))"

definition add_buy :: "int \<Rightarrow> int \<Rightarrow> int \<Rightarrow> buy \<Rightarrow> TradeHistory \<Rightarrow> TradeHistory" where
  "add_buy year month day b th =
     th\<lparr>buy_history := history_add year month day (buy_ticker b) b (buy_history th)\<rparr>"

definition add_sell :: "int \<Rightarrow> int \<Rightarrow> int \<Rightarrow> sell \<Rightarrow> TradeHistory \<Rightarrow> TradeHistory" where
  "add_sell year month day s th =
     th\<lparr>sell_history := history_add year month day (sell_ticker s) s (sell_history th)\<rparr>"

definition get_buy :: "int \<Rightarrow> int \<Rightarrow> int \<Rightarrow> string \<Rightarrow> TradeHistory \<Rightarrow> buy option" where
  "get_buy year month day ticker th = history_get year month day ticker (buy_history th)"

definition get_sell :: "int \<Rightarrow> int \<Rightarrow> int \<Rightarrow> string \<Rightarrow> TradeHistory \<Rightarrow> sell option" where
  "get_sell year month day ticker th = history_get year month day ticker (sell_history th)"

text \<open>
  \<open>sum_profits_costs\<close>: the two nested \<^verbatim>\<open>for\<close> loops, with the running pair
  \<open>(profits, costs)\<close> as accumulator. \<open>fadd\<close> is the addition of \<^verbatim>\<open>profits += sell.profit\<close>
  and \<^verbatim>\<open>costs += sell.cost\<close>.
\<close>

fun sum_tickers ::
    "(real \<Rightarrow> real \<Rightarrow> real) \<Rightarrow> TradeHistory \<Rightarrow> int \<times> int \<times> int \<Rightarrow> string list
       \<Rightarrow> real \<times> real \<Rightarrow> real \<times> real" where
  "sum_tickers fadd th date [] acc = acc"
| "sum_tickers fadd th (year, month, day) (ticker # tickers) (profits, costs) =
     (case get_sell year month day ticker th of
        None \<Rightarrow> sum_tickers fadd th (year, month, day) tickers (profits, costs)
      | Some s \<Rightarrow> sum_tickers fadd th (year, month, day) tickers
                   (fadd profits (sell_profit s), fadd costs (sell_cost s)))"

fun sum_dates ::
    "(real \<Rightarrow> real \<Rightarrow> real) \<Rightarrow> TradeHistory \<Rightarrow> (int \<times> int \<times> int) list \<Rightarrow> string list
       \<Rightarrow> real \<times> real \<Rightarrow> real \<times> real" where
  "sum_dates fadd th [] tickers acc = acc"
| "sum_dates fadd th (date # dates) tickers acc =
     sum_dates fadd th dates tickers (sum_tickers fadd th date tickers acc)"

definition sum_profits_costs ::
    "(real \<Rightarrow> real \<Rightarrow> real) \<Rightarrow> TradeHistory \<Rightarrow> (int \<times> int \<times> int) list \<Rightarrow> string list
       \<Rightarrow> real \<times> real" where
  "sum_profits_costs fadd th dates tickers = sum_dates fadd th dates tickers (0, 0)"

section \<open>Assets on the object heap, inventories\<close>

text \<open>
  \<^verbatim>\<open>Asset\<close> objects are the only objects whose attributes the program assigns after
  construction, and a snapshot is a \<^verbatim>\<open>copy.deepcopy\<close> of the live inventory, so they
  live in an explicit heap: a list of assets, an object reference being an index into it.
  \<^verbatim>\<open>Asset()\<close> allocates at the end of the heap. An \<^verbatim>\<open>Inventory\<close> is its
  \<^verbatim>\<open>assets\<close> dictionary from ticker to reference; that dictionary is built once by the
  constructor and never changed afterwards. The \<^verbatim>\<open>value\<close> and \<^verbatim>\<open>cash\<close> of an asset
  are kept by their value: nothing the program does with them depends on whether they
  are still the \<^verbatim>\<open>int\<close> 0 of the constructor.
\<close>

record Asset =
  qty :: int
  cost :: number
  value' :: real
  cash :: real

definition Asset_init :: Asset where
  "Asset_init = \<lparr>qty = 0, cost = Int0, value' = 0, cash = 0\<rparr>"

text \<open>
  \<open>avg_price\<close>: \<^verbatim>\<open>self.cost / self.qty if self.qty != 0 else 0\<close>. With the cost still
  the \<^verbatim>\<open>int\<close> 0 the quotient of integers is the float 0; with a float cost the
  quantity is converted. The result for quantity 0 is the \<^verbatim>\<open>int\<close> 0.
\<close>

definition avg_price :: "Asset \<Rightarrow> error + number" where
  "avg_price a =
     (if qty a \<noteq> 0 then
        (case cost a of
           Int0 \<Rightarrow> Inr (Float 0)
         | Float c \<Rightarrow>
             (case float_of_int (qty a) of
                Inl e \<Rightarrow> Inl e
              | Inr q \<Rightarrow> Inr (Float (c / q))))
      else Inr Int0)"

definition profit :: "Asset \<Rightarrow> real" where
  "profit a = value' a - num_value (cost a)"

type_synonym heap = "Asset list"

type_synonym Inventory = "(string, nat) dict"

definition Inventory_init :: "'a \<Rightarrow> string list \<Rightarrow> heap \<Rightarrow> Inventory \<times> heap" where
  "Inventory_init tickers_interested all_tickers h =
     fold (\<lambda>ticker (assets, h'). (setitem ticker (length h') assets, h' @ [Asset_init]))
       all_tickers ([], h)"

text \<open>
  The aggregates of \<^verbatim>\<open>Inventory\<close>: \<^verbatim>\<open>sum([self.assets[ticker].f for ticker in tickers])\<close>.
  A ticker that is not a key raises \<^verbatim>\<open>KeyError\<close>.
\<close>

fun lookup_assets :: "heap \<Rightarrow> Inventory \<Rightarrow> string list \<Rightarrow> error + Asset list" where
  "lookup_assets h inventory [] = Inr []"
| "lookup_assets h inventory (ticker # tickers) =
     (case getitem inventory ticker of
        Inl e \<Rightarrow> Inl e
      | Inr r \<Rightarrow> (case lookup_assets h inventory tickers of
                   Inl e \<Rightarrow> Inl e
                 | Inr assets \<Rightarrow> Inr (h ! r # assets)))"

definition Inventory_value :: "heap \<Rightarrow> Inventory \<Rightarrow> string list \<Rightarrow> error + real" where
  "Inventory_value h inventory tickers =
     (case lookup_assets h inventory tickers of Inl e \<Rightarrow> Inl e | Inr assets \<Rightarrow> Inr (sum_list (map value' assets)))"

definition Inventory_profits :: "heap \<Rightarrow> Inventory \<Rightarrow> string list \<Rightarrow> error + real" where
  "Inventory_profits h inventory tickers =
     (case lookup_assets h inventory tickers of Inl e \<Rightarrow> Inl e | Inr assets \<Rightarrow> Inr (sum_list (map profit assets)))"

definition Inventory_costs :: "heap \<Rightarrow> Inventory \<Rightarrow> string list \<Rightarrow> error + real" where
  "Inventory_costs h inventory tickers =
     (case lookup_assets h inventory tickers of Inl e \<Rightarrow> Inl e | Inr assets \<Rightarrow> Inr (sum_list (map (\<lambda>a. num_value (cost a)) assets)))"

definition Inventory_cash :: "heap \<Rightarrow> Inventory \<Rightarrow> string list \<Rightarrow> error + real" where
  "Inventory_cash h inventory tickers =
     (case lookup_assets h inventory tickers of Inl e \<Rightarrow> Inl e | Inr assets \<Rightarrow> Inr (sum_list (map cash assets)))"

section \<open>Date utilities\<close>

text \<open>
  \<^verbatim>\<open>calendar.monthrange(year, month)[1]\<close>: the number of days of the month, and
  \<^verbatim>\<open>IllegalMonthError\<close> for a month outside 1..12.
\<close>

definition isleap :: "int \<Rightarrow> bool" where
  "isleap year = (year mod 4 = 0 \<and> (year mod 100 \<noteq> 0 \<or> year mod 400 = 0))"

definition mdays :: "int list" where
  "mdays = [0, 31, 28, 31, 30, 31, 30, 31, 31, 30, 31, 30, 31]"

definition monthrange_days :: "int \<Rightarrow> int \<Rightarrow> error + int" where
  "monthrange_days year month =
     (if 1 \<le> month \<and> month \<le> 12
      then Inr (mdays ! nat month + (if month = 2 \<and> isleap year then 1 else 0))
      else Inl IllegalMonthError)"

text \<open>
  \<^verbatim>\<open>max(key for key in ks if key <= bound)\<close>; \<^verbatim>\<open>max\<close> of an empty sequence raises
  \<^verbatim>\<open>ValueError\<close>.
\<close>

definition max_le :: "int list \<Rightarrow> int \<Rightarrow> error + int" where
  "max_le ks bound =
     (case filter (\<lambda>key. key \<le> bound) ks of
        [] \<Rightarrow> Inl ValueError
      | key # rest \<Rightarrow> Inr (fold max rest key))"

definition and_then :: "error + 'a \<Rightarrow> ('a \<Rightarrow> error + 'b) \<Rightarrow> error + 'b" where
  "and_then r f = (case r of Inl e \<Rightarrow> Inl e | Inr v \<Rightarrow> f v)"

type_synonym 'v date_index = "(int, (int, (int, 'v) dict) dict) dict"

text \<open>
  \<open>get_closest_available_date\<close>, statement by statement. \<open>closest_month\<close> is the first
  \<^verbatim>\<open>try\<close>/\<^verbatim>\<open>except\<close> (it yields the year and the month), \<open>closest_day\<close> the second.
  In the last generator the bound \<^verbatim>\<open>monthrange(year, month)[1]\<close> is evaluated only when
  there is a key to test.
\<close>

definition closest_month :: "int \<Rightarrow> int \<Rightarrow> 'v date_index \<Rightarrow> error + int \<times> int" where
  "closest_month year month d =
     (case and_then (getitem d year) (\<lambda>ms. max_le (keys ms) month) of
        Inr month' \<Rightarrow> Inr (year, month')
      | Inl _ \<Rightarrow>
          and_then (max_le (keys d) year) (\<lambda>year'.
          and_then (getitem d (year' - 1)) (\<lambda>ms.
          and_then (max_le (keys ms) 12) (\<lambda>month'. Inr (year' - 1, month')))))"

definition closest_day :: "int \<Rightarrow> int \<Rightarrow> int \<Rightarrow> 'v date_index \<Rightarrow> error + int \<times> int" where
  "closest_day year month day d =
     (case and_then (getitem d year) (\<lambda>ms. and_then (getitem ms month) (\<lambda>ds. max_le (keys ds) day)) of
        Inr day' \<Rightarrow> Inr (month, day')
      | Inl _ \<Rightarrow>
          and_then (getitem d year) (\<lambda>ms.
          and_then (max_le (keys ms) month) (\<lambda>month'.
          and_then (getitem ms (month' - 1)) (\<lambda>ds.
            if keys ds = [] then Inl ValueError
            else and_then (monthrange_days year (month' - 1)) (\<lambda>n.
                 and_then (max_le (keys ds) n) (\<lambda>day'. Inr (month' - 1, day')))))))"

definition get_closest_available_date ::
    "int \<Rightarrow> int \<Rightarrow> int \<Rightarrow> 'v date_index \<Rightarrow> error + int \<times> int \<times> int" where
  "get_closest_available_date year month day d =
     and_then (max_le (keys d) year) (\<lambda>year1.
     and_then (closest_month year1 month d) (\<lambda>(year2, month2).
     and_then (closest_day year2 month2 day d) (\<lambda>(month3, day3).
       Inr (year2, month3, day3))))"

text \<open>Dates are compared as Python compares tuples: lexicographically.\<close>

definition date_le :: "int \<times> int \<times> int \<Rightarrow> int \<times> int \<times> int \<Rightarrow> bool" where
  "date_le a b =
     (case a of (y, m, d) \<Rightarrow> case b of (y', m', d') \<Rightarrow>
        y < y' \<or> (y = y' \<and> (m < m' \<or> (m = m' \<and> d \<le> d'))))"

definition indexed :: "'v date_index \<Rightarrow> int \<times> int \<times> int \<Rightarrow> bool" where
  "indexed d date =
     (case date of (year, month, day) \<Rightarrow>
        (case map_of d year of None \<Rightarrow> False | Some ms \<Rightarrow>
         (case map_of ms month of None \<Rightarrow> False | Some ds \<Rightarrow> day \<in> set (keys ds))))"

section \<open>The snapshot store\<close>

type_synonym snapshot = "Inventory date_index"

definition InventorySnapshot_get :: "int \<Rightarrow> int \<Rightarrow> int \<Rightarrow> snapshot \<Rightarrow> Inventory option" where
  "InventorySnapshot_get year month day snap =
     (case map_of snap year of None \<Rightarrow> None | Some ms \<Rightarrow>
      (case map_of ms month of None \<Rightarrow> None | Some ds \<Rightarrow> map_of ds day))"

text \<open>
  \<^verbatim>\<open>copy.deepcopy(inventory)\<close>: a new dictionary whose values are new \<^verbatim>\<open>Asset\<close>
  objects, allocated at the end of the heap with the attribute values of the originals.
  The memo of \<^verbatim>\<open>deepcopy\<close> maps each object already copied to its copy, so an object
  reached twice is copied once.
\<close>

fun deepcopy_assets :: "Inventory \<Rightarrow> (nat, nat) dict \<Rightarrow> heap \<Rightarrow> Inventory \<times> heap" where
  "deepcopy_assets [] memo h = ([], h)"
| "deepcopy_assets ((ticker, r) # rest) memo h =
     (case map_of memo r of
        Some r' \<Rightarrow>
          (case deepcopy_assets rest memo h of (copied, h') \<Rightarrow> ((ticker, r') # copied, h'))
      | None \<Rightarrow>
          (case deepcopy_assets rest ((r, length h) # memo) (h @ [h ! r]) of
             (copied, h') \<Rightarrow> ((ticker, length h) # copied, h')))"

definition deepcopy :: "Inventory \<Rightarrow> heap \<Rightarrow> Inventory \<times> heap" where
  "deepcopy inventory h = deepcopy_assets inventory [] h"

text \<open>
  \<open>take_snapshot\<close>: the copy is made before the innermost \<^verbatim>\<open>setdefault\<close> looks the day
  up, so it is allocated also when the day already holds a snapshot.
\<close>

definition take_snapshot ::
    "int \<Rightarrow> int \<Rightarrow> int \<Rightarrow> Inventory \<Rightarrow> snapshot \<times> heap \<Rightarrow> snapshot \<times> heap" where
  "take_snapshot year month day inventory sh =
     (case sh of (snap, h) \<Rightarrow>
        (case deepcopy inventory h of (copy, h') \<Rightarrow>
           (setdefault_in year [] (setdefault_in month [] (setdefault day copy)) snap, h')))"

definition get_closest_inventory ::
    "int \<Rightarrow> int \<Rightarrow> int \<Rightarrow> snapshot \<Rightarrow> error + Inventory option" where
  "get_closest_inventory year month day snap =
     and_then (get_closest_available_date year month day snap) (\<lambda>(year', month', day').
       Inr (InventorySnapshot_get year' month' day' snap))"

text \<open>The view of an inventory in a heap: the attribute values behind each ticker.\<close>

definition view :: "heap \<Rightarrow> Inventory \<Rightarrow> (string, Asset) dict" where
  "view h inventory = map (\<lambda>(ticker, r). (ticker, h ! r)) inventory"

section \<open>The accounting engine\<close>

text \<open>
  The module-level objects \<^verbatim>\<open>inventory_curr\<close>, \<^verbatim>\<open>inventory_snapshot\<close> and
  \<^verbatim>\<open>trades\<close>, with the heap of \<^verbatim>\<open>Asset\<close> objects, are the state. The price table
  \<^verbatim>\<open>price_daily\<close> and the list \<^verbatim>\<open>all_tickers\<close> are read only once loaded and are
  passed as parameters.
\<close>

record state =
  heap :: heap
  inventory_curr :: Inventory
  inventory_snapshot :: snapshot
  trades :: TradeHistory

type_synonym price_table = "real history"

definition init_state :: "string list \<Rightarrow> state" where
  "init_state all_tickers =
     (case Inventory_init all_tickers all_tickers [] of
        (inventory, h) \<Rightarrow>
          \<lparr>heap = h, inventory_curr = inventory, inventory_snapshot = [],
           trades = TradeHistory_init\<rparr>)"

definition get_daily_price :: "price_table \<Rightarrow> int \<Rightarrow> int \<Rightarrow> int \<Rightarrow> string \<Rightarrow> error + real" where
  "get_daily_price price_daily year month day ticker =
     and_then (getitem price_daily year) (\<lambda>ms.
     and_then (getitem ms month) (\<lambda>ds.
     and_then (getitem ds day) (\<lambda>ts. getitem ts ticker)))"

text \<open>
  \<open>process_trade\<close>. Every \<^verbatim>\<open>eod_price * qty\<close> converts the integer \<^verbatim>\<open>qty\<close>. In a
  sell, \<^verbatim>\<open>temp_avg_price * qty\<close> is the \<^verbatim>\<open>int\<close> 0 when the average price is (the
  quantity held was 0), and then \<^verbatim>\<open>cost -= 0\<close> leaves the cost what it was.
\<close>

definition process_trade ::
    "price_table \<Rightarrow> int \<Rightarrow> int \<Rightarrow> int \<Rightarrow> string \<Rightarrow> int \<Rightarrow> string \<Rightarrow> state \<Rightarrow> error + state" where
  "process_trade price_daily year month day ticker n order_type s =
     and_then (get_daily_price price_daily year month day ticker) (\<lambda>eod_price.
     and_then (getitem (inventory_curr s) ticker) (\<lambda>r.
       let curr_ticker = heap s ! r in
       if order_type = BUY then
         and_then (float_of_int n) (\<lambda>fn.
         Inr (s\<lparr>trades := add_buy year month day (Buy ticker eod_price n) (trades s),
                heap := (heap s)[r := curr_ticker
                  \<lparr>qty := qty curr_ticker + n,
                   cost := Float (num_value (cost curr_ticker) + eod_price * fn),
                   cash := cash curr_ticker - eod_price * fn\<rparr>]\<rparr>))
       else
         and_then (avg_price curr_ticker) (\<lambda>temp_avg_price.
         and_then (float_of_int n) (\<lambda>fn.
         Inr (s\<lparr>trades := add_sell year month day
                  (Sell ticker eod_price n ((eod_price - num_value temp_avg_price) * fn)
                     (num_value temp_avg_price * fn)) (trades s),
                heap := (heap s)[r := curr_ticker
                  \<lparr>cash := cash curr_ticker + eod_price * fn,
                   cost := (case temp_avg_price of
                              Int0 \<Rightarrow> cost curr_ticker
                            | Float a \<Rightarrow> Float (num_value (cost curr_ticker) - a * fn)),
                   qty := qty curr_ticker - n\<rparr>]\<rparr>)))))"

text \<open>
  A transaction row is \<open>(year, month, day, ticker, qty, order_type)\<close>; a list of rows is
  applied in order and the first exception ends the run, as it ends the program.
\<close>

type_synonym trade = "int \<times> int \<times> int \<times> string \<times> int \<times> string"

fun process_trades :: "price_table \<Rightarrow> trade list \<Rightarrow> state \<Rightarrow> error + state" where
  "process_trades price_daily [] s = Inr s"
| "process_trades price_daily ((year, month, day, ticker, n, order_type) # rows) s =
     (case process_trade price_daily year month day ticker n order_type s of
        Inl e \<Rightarrow> Inl e
      | Inr s' \<Rightarrow> process_trades price_daily rows s')"

fun calc_unrealized_profits ::
    "price_table \<Rightarrow> string list \<Rightarrow> int \<Rightarrow> int \<Rightarrow> int \<Rightarrow> state \<Rightarrow> error + state" where
  "calc_unrealized_profits price_daily [] year month day s = Inr s"
| "calc_unrealized_profits price_daily (ticker # all_tickers) year month day s =
     and_then (get_daily_price price_daily year month day ticker) (\<lambda>eod_price.
     and_then (getitem (inventory_curr s) ticker) (\<lambda>r.
       let curr_ticker = heap s ! r in
       and_then (float_of_int (qty curr_ticker)) (\<lambda>fq.
       calc_unrealized_profits price_daily all_tickers year month day
         (s\<lparr>heap := (heap s)[r := curr_ticker \<lparr>value' := eod_price * fq\<rparr>]\<rparr>))))"

definition daily_update ::
    "price_table \<Rightarrow> string list \<Rightarrow> int \<Rightarrow> int \<Rightarrow> int \<Rightarrow> state \<Rightarrow> error + state" where
  "daily_update price_daily all_tickers year month day s =
     and_then (calc_unrealized_profits price_daily all_tickers year month day s) (\<lambda>s1.
       case take_snapshot year month day (inventory_curr s1) (inventory_snapshot s1, heap s1) of
         (snap, h) \<Rightarrow> Inr (s1\<lparr>inventory_snapshot := snap, heap := h\<rparr>))"

section \<open>The metrics engine\<close>

definition percent :: "real \<Rightarrow> real \<Rightarrow> real" where
  "percent profits costs = (if costs > EPS then profits / costs * 100 else 0)"

text \<open>
  \<open>get_profits_cost\<close> returns the nine figures in the order of the source:
  realized profits, cost, percentage; unrealized profits, cost, percentage; total
  profits, cost, percentage. \<^verbatim>\<open>dates[-1]\<close> raises \<^verbatim>\<open>IndexError\<close> on an empty list,
  and a closest inventory that is \<^verbatim>\<open>None\<close> raises \<^verbatim>\<open>AttributeError\<close> at
  \<^verbatim>\<open>inventory.profits\<close>. \<open>fadd\<close> is the addition of the running totals of
  \<open>sum_profits_costs\<close>.
\<close>

type_synonym figures = "real \<times> real \<times> real \<times> real \<times> real \<times> real \<times> real \<times> real \<times> real"

definition get_profits_cost ::
    "(real \<Rightarrow> real \<Rightarrow> real) \<Rightarrow> state \<Rightarrow> (int \<times> int \<times> int) list \<Rightarrow> string list
       \<Rightarrow> error + figures" where
  "get_profits_cost fadd s dates tickers =
     (case sum_profits_costs fadd (trades s) dates tickers of
        (realized_profits, realized_cost) \<Rightarrow>
     let realized_profits_percent = percent realized_profits realized_cost in
     if dates = [] then Inl IndexError else
     case last dates of (year, month, day) \<Rightarrow>
     and_then (get_closest_inventory year month day (inventory_snapshot s)) (\<lambda>found.
     case found of
       None \<Rightarrow> Inl AttributeError
     | Some inventory \<Rightarrow>
     and_then (Inventory_profits (heap s) inventory tickers) (\<lambda>unrealized_profits.
     and_then (Inventory_costs (heap s) inventory tickers) (\<lambda>unrealized_cost.
     let unrealized_profits_percent = percent unrealized_profits unrealized_cost;
         total_profits = realized_profits + unrealized_profits;
         total_cost = realized_cost + unrealized_cost;
         total_profits_percent = percent total_profits total_cost
     in Inr (realized_profits, realized_cost, realized_profits_percent,
             unrealized_profits, unrealized_cost, unrealized_profits_percent,
             total_profits, total_cost, total_profits_percent)))))"

text \<open>
  The numpy functions \<open>get_beta\<close> uses, as the exact statistics. \<^verbatim>\<open>np.mean\<close> and \<^verbatim>\<open>np.var\<close>
  divide by the length \<open>N\<close> (\<^verbatim>\<open>ddof=0\<close>), \<^verbatim>\<open>np.cov\<close> divides by \<open>N - 1\<close> (its default,
  \<^verbatim>\<open>ddof=1\<close>) and raises \<^verbatim>\<open>ValueError\<close> when the two series differ in length. A float
  division by zero in numpy does not raise: the result is not finite, here \<open>None\<close>.
\<close>

definition np_mean :: "real list \<Rightarrow> real option" where
  "np_mean xs = (if xs = [] then None else Some (sum_list xs / real (length xs)))"

definition np_var :: "real list \<Rightarrow> real option" where
  "np_var xs =
     (case np_mean xs of
        None \<Rightarrow> None
      | Some m \<Rightarrow> Some (sum_list (map (\<lambda>x. (x - m)\<^sup>2) xs) / real (length xs)))"

definition np_cov_01 :: "real list \<Rightarrow> real list \<Rightarrow> error + real option" where
  "np_cov_01 xs ys =
     (if length xs \<noteq> length ys then Inl ValueError
      else case (np_mean xs, np_mean ys) of
        (Some mx, Some my) \<Rightarrow>
          if length xs = 1 then Inr None
          else Inr (Some (sum_list (map2 (\<lambda>x y. (x - mx) * (y - my)) xs ys)
                          / (real (length xs) - 1)))
      | _ \<Rightarrow> Inr None)"

definition float_div :: "real option \<Rightarrow> real option \<Rightarrow> real option" where
  "float_div a b =
     (case (a, b) of
        (Some x, Some y) \<Rightarrow> if y = 0 then None else Some (x / y)
      | _ \<Rightarrow> None)"

definition get_beta :: "real list \<Rightarrow> real list \<Rightarrow> error + real option" where
  "get_beta ret_ticker ret_market =
     and_then (np_cov_01 ret_ticker ret_market) (\<lambda>covariance.
       let variance = np_var ret_market in Inr (float_div covariance variance))"

text \<open>
  \<open>get_std\<close> and \<open>get_sharpe_ratio\<close> take what \<^verbatim>\<open>np.std\<close> and \<^verbatim>\<open>np.mean\<close> return
  for the list as parameters \<open>std\<close> and \<open>mean\<close>: the floats numpy computes in binary64
  (\<open>None\<close> when not finite), not the exact statistics. \<open>get_sharpe_ratio\<close> returns the
  ratio and the lines it printed.
\<close>

definition get_std :: "(real list \<Rightarrow> real option) \<Rightarrow> real list \<Rightarrow> real option" where
  "get_std std ret_ticker = std ret_ticker"


text \<open>
  \<open>get_alpha\<close> takes the market return series \<open>ret_market\<close> from
  \<^verbatim>\<open>get_returns_timespan\<close>, the total market return from the benchmark prices and the
  portfolio return from \<open>get_profits_cost\<close>; the three are parameters here. Its beta is
  \<^verbatim>\<open>get_beta(ret_market, ret_market)\<close>.
\<close>

definition get_alpha :: "real list \<Rightarrow> real \<Rightarrow> real \<Rightarrow> error + real option" where
  "get_alpha ret_market total_return_of_market returns =
     and_then (get_beta ret_market ret_market) (\<lambda>beta.
       Inr (map_option
         (\<lambda>b. returns - RISK_FREE_RATE - b * (total_return_of_market - RISK_FREE_RATE)) beta))"

section \<open>Invariants of the heap and of runs\<close>

text \<open>
  What the constructor of \<open>Inventory\<close> maintains while it builds the dictionary: keys
  and references are distinct, and every reference is to a zero asset allocated at or
  after heap position \<open>n\<close>.
\<close>

definition fresh_assets :: "nat \<Rightarrow> Inventory \<times> heap \<Rightarrow> bool" where
  "fresh_assets n ih =
     (case ih of (inventory, h) \<Rightarrow>
        distinct (keys inventory) \<and> distinct (map snd inventory) \<and> n \<le> length h
        \<and> (\<forall>(ticker, r) \<in> set inventory. n \<le> r \<and> r < length h \<and> h ! r = Asset_init))"

text \<open>
  For the trades of a run: \<open>sells_covered\<close> says that every row that is not a buy asks
  for at most the quantity its ticker holds when the row is processed, and \<open>long_only\<close>
  that no asset on the heap has a negative quantity (and the live inventory refers to
  allocated assets).
\<close>

fun sells_covered :: "price_table \<Rightarrow> trade list \<Rightarrow> state \<Rightarrow> bool" where
  "sells_covered price_daily [] s = True"
| "sells_covered price_daily ((year, month, day, ticker, n, order_type) # rows) s =
     ((order_type \<noteq> BUY \<longrightarrow>
         (case getitem (inventory_curr s) ticker of
            Inl e \<Rightarrow> True
          | Inr r \<Rightarrow> n \<le> qty (heap s ! r)))
      \<and> (case process_trade price_daily year month day ticker n order_type s of
            Inl e \<Rightarrow> True
          | Inr s' \<Rightarrow> sells_covered price_daily rows s'))"

definition trade_qty :: "trade \<Rightarrow> int" where
  "trade_qty row = (case row of (year, month, day, ticker, n, order_type) \<Rightarrow> n)"

definition long_only :: "state \<Rightarrow> bool" where
  "long_only s =
     ((\<forall>a \<in> set (heap s). 0 \<le> qty a)
      \<and> (\<forall>(ticker, r) \<in> set (inventory_curr s). r < length (heap s)))"

section \<open>Sequences of ledger calls\<close>

text \<open>
  A sequence of \<^verbatim>\<open>add_buy\<close> and \<^verbatim>\<open>add_sell\<close> calls on one \<open>TradeHistory\<close>, and for a
  key (year, month, day, ticker) the first buy and the first sell the sequence inserts
  under it. The key of a call is its date and the ticker of its event.
\<close>

datatype ledger_call = AddBuy int int int buy | AddSell int int int sell

fun apply_call :: "ledger_call \<Rightarrow> TradeHistory \<Rightarrow> TradeHistory" where
  "apply_call (AddBuy year month day b) th = add_buy year month day b th"
| "apply_call (AddSell year month day s) th = add_sell year month day s th"

definition apply_calls :: "ledger_call list \<Rightarrow> TradeHistory \<Rightarrow> TradeHistory" where
  "apply_calls calls th = fold apply_call calls th"

fun first_buy :: "int \<Rightarrow> int \<Rightarrow> int \<Rightarrow> string \<Rightarrow> ledger_call list \<Rightarrow> buy option" where
  "first_buy year month day ticker [] = None"
| "first_buy year month day ticker (AddBuy y m d b # calls) =
     (if y = year \<and> m = month \<and> d = day \<and> buy_ticker b = ticker then Some b
      else first_buy year month day ticker calls)"
| "first_buy year month day ticker (AddSell y m d s # calls) =
     first_buy year month day ticker calls"

fun first_sell :: "int \<Rightarrow> int \<Rightarrow> int \<Rightarrow> string \<Rightarrow> ledger_call list \<Rightarrow> sell option" where
  "first_sell year month day ticker [] = None"
| "first_sell year month day ticker (AddSell y m d s # calls) =
     (if y = year \<and> m = month \<and> d = day \<and> sell_ticker s = ticker then Some s
      else first_sell year month day ticker calls)"
| "first_sell year month day ticker (AddBuy y m d b # calls) =
     first_sell year month day ticker calls"

text \<open>
  \<open>entries\<close> lists what a history holds, each event with its full key. \<open>well_keyed\<close>: no
  dictionary of the history, at any of its four levels, lists a key twice.
\<close>

definition entries :: "'e history \<Rightarrow> ((int \<times> int \<times> int \<times> string) \<times> 'e) list" where
  "entries h =
     concat (map (\<lambda>(year, ms).
       concat (map (\<lambda>(month, ds).
         concat (map (\<lambda>(day, ts).
           map (\<lambda>(ticker, e). ((year, month, day, ticker), e)) ts) ds)) ms)) h)"

definition keyed_days :: "(int, (string, 'e) dict) dict \<Rightarrow> bool" where
  "keyed_days ds = (distinct (keys ds) \<and> (\<forall>(day, ts) \<in> set ds. distinct (keys ts)))"

definition keyed_months :: "(int, (int, (string, 'e) dict) dict) dict \<Rightarrow> bool" where
  "keyed_months ms = (distinct (keys ms) \<and> (\<forall>(month, ds) \<in> set ms. keyed_days ds))"

definition well_keyed :: "'e history \<Rightarrow> bool" where
  "well_keyed h = (distinct (keys h) \<and> (\<forall>(year, ms) \<in> set h. keyed_months ms))"

section \<open>Concrete inputs\<close>

text \<open>
  The scenario of the specification: \<^verbatim>\<open>AAPL\<close> closes at 100 on 2020-01-02 and at 110 on
  2020-01-03; ten shares bought on the first day are held at a cost of 1000.
\<close>

definition aapl_prices :: price_table where
  "aapl_prices = [(2020, [(1, [(2, [(''AAPL'', 100)]), (3, [(''AAPL'', 110)])])])]"

definition aapl_held :: state where
  "aapl_held =
     \<lparr>heap = [\<lparr>qty = 10, cost = Float 1000, value' = 1000, cash = - 1000\<rparr>],
      inventory_curr = [(''AAPL'', 0)], inventory_snapshot = [],
      trades = TradeHistory_init\<rparr>"

text \<open>Buying ten \<^verbatim>\<open>AAPL\<close> on 2020-01-02 and selling five on 2020-01-03.\<close>

definition buy_then_sell :: "trade list" where
  "buy_then_sell = [(2020, 1, 2, ''AAPL'', 10, BUY), (2020, 1, 3, ''AAPL'', 5, SELL)]"

definition after_buy_then_sell :: state where
  "after_buy_then_sell =
     \<lparr>heap = [\<lparr>qty = 5, cost = Float 500, value' = 0, cash = - 450\<rparr>],
      inventory_curr = [(''AAPL'', 0)], inventory_snapshot = [],
      trades = \<lparr>buy_history = [(2020, [(1, [(2, [(''AAPL'', Buy ''AAPL'' 100 10)])])])],
                sell_history = [(2020, [(1, [(3, [(''AAPL'', Sell ''AAPL'' 110 5 50 500)])])])]\<rparr>\<rparr>"

text \<open>
  A date index with January and March of 2020, and the state of the tracker after the
  two \<^verbatim>\<open>AAPL\<close> trades and the snapshot of 2020-01-03 (the asset at reference 1 is the
  snapshot's copy).
\<close>

definition gap_index :: "unit date_index" where
  "gap_index = [(2020, [(1, [(2, ())]), (3, [(5, ())])])]"

definition held_snapshot :: state where
  "held_snapshot =
     \<lparr>heap = [\<lparr>qty = 5, cost = Float 500, value' = 550, cash = - 450\<rparr>,
              \<lparr>qty = 5, cost = Float 500, value' = 550, cash = - 450\<rparr>],
      inventory_curr = [(''AAPL'', 0)],
      inventory_snapshot = [(2020, [(1, [(3, [(''AAPL'', 1)])])])],
      trades = \<lparr>buy_history = [(2020, [(1, [(2, [(''AAPL'', Buy ''AAPL'' 100 10)])])])],
                sell_history = [(2020, [(1, [(3, [(''AAPL'', Sell ''AAPL'' 110 5 50 500)])])])]\<rparr>\<rparr>"

text \<open>Two buys of the same ticker on the same day, and a sell the day after.\<close>

definition same_day_calls :: "ledger_call list" where
  "same_day_calls =
     [AddBuy 2020 1 2 (Buy ''AAPL'' 100 10), AddBuy 2020 1 2 (Buy ''AAPL'' 100 7),
      AddSell 2020 1 3 (Sell ''AAPL'' 110 5 50 500)]"

text \<open>
  The asset held after the two trades and marked at 110, the same asset after the
  remaining five shares are sold, and the snapshot store after the commit of 2020-01-03.
\<close>

definition held_asset :: Asset where
  "held_asset = \<lparr>qty = 5, cost = Float 500, value' = 550, cash = - 450\<rparr>"

definition sold_asset :: Asset where
  "sold_asset = \<lparr>qty = 0, cost = Float 0, value' = 550, cash = 100\<rparr>"

definition day3_snapshot :: snapshot where
  "day3_snapshot = [(2020, [(1, [(3, [(''AAPL'', 1)])])])]"

text \<open>
  The state after a second sell, of two shares, on 2020-01-03.
\<close>

definition after_second_sell :: state where
  "after_second_sell =
     \<lparr>heap = [\<lparr>qty = 3, cost = Float 300, value' = 0, cash = - 230\<rparr>],
      inventory_curr = [(''AAPL'', 0)], inventory_snapshot = [],
      trades = \<lparr>buy_history = [(2020, [(1, [(2, [(''AAPL'', Buy ''AAPL'' 100 10)])])])],
                sell_history = [(2020, [(1, [(3, [(''AAPL'', Sell ''AAPL'' 110 5 50 500)])])])]\<rparr>\<rparr>"

text \<open>
  The doubles \<^verbatim>\<open>0.1\<close>, \<^verbatim>\<open>0.2\<close> and \<^verbatim>\<open>0.3\<close>, and a trade history with one sell on
  each of three days that has them as profits and costs.
\<close>

definition double_0_1 :: real where
  "double_0_1 = 3602879701896397 / 2 ^ 55"

definition double_0_2 :: real where
  "double_0_2 = 3602879701896397 / 2 ^ 54"

definition double_0_3 :: real where
  "double_0_3 = 5404319552844595 / 2 ^ 54"

definition three_sells :: TradeHistory where
  "three_sells =
     \<lparr>buy_history = [],
      sell_history =
        [(2020, [(1, [(2, [(''AAPL'', Sell ''AAPL'' 1 1 double_0_1 double_0_1)]),
                      (3, [(''AAPL'', Sell ''AAPL'' 1 1 double_0_2 double_0_2)]),
                      (6, [(''AAPL'', Sell ''AAPL'' 1 1 double_0_3 double_0_3)])])])]\<rparr>"




section \<open>Dictionaries\<close>

lemma map_of_setitem:
  "map_of (setitem k v d) k' = (if k' = k then Some v else map_of d k')"
  by (simp add: setitem_def update_conv')

lemma map_of_setdefault:
  "map_of (setdefault k v d) k' =
     (if k' = k \<and> map_of d k = None then Some v else map_of d k')"
  by (auto simp: setdefault_def map_add_def split: option.splits)

lemma map_of_setdefault_in:
  "map_of (setdefault_in k dflt f d) k' =
     (if k' = k then Some (f (case map_of d k of None \<Rightarrow> dflt | Some v \<Rightarrow> v))
      else map_of d k')"
  by (simp add: setdefault_in_def map_of_setitem)

lemma history_get_add:
  "history_get y' m' d' t' (history_add y m d t e h) =
     (if y' = y \<and> m' = m \<and> d' = d \<and> t' = t \<and> history_get y m d t h = None
      then Some e else history_get y' m' d' t' h)"
  by (auto simp: history_get_def history_add_def map_of_setdefault_in map_of_setdefault
           split: option.splits)

section \<open>Selling from a position\<close>

lemma float_of_int_in_range:
  "\<bar>i\<bar> < 2 ^ 1024 - 2 ^ 970 \<Longrightarrow> float_of_int i = Inr (real_of_int i)"
  by (simp add: float_of_int_def)

lemma avg_price_value:
  assumes "cost a = Int0 \<or> \<bar>qty a\<bar> < 2 ^ 1024 - 2 ^ 970"
  shows "\<exists>avg. avg_price a = Inr avg
           \<and> num_value avg = (if qty a = 0 then 0 else num_value (cost a) / real_of_int (qty a))
           \<and> (avg = Int0 \<longleftrightarrow> qty a = 0)"
proof (cases "cost a")
  case Int0
  then show ?thesis by (simp add: avg_price_def)
next
  case (Float c)
  with assms have "\<bar>qty a\<bar> < 2 ^ 1024 - 2 ^ 970" by simp
  then show ?thesis by (simp add: avg_price_def Float float_of_int_in_range)
qed

text \<open>
  Claim C1, as the code has it. Let the day's price \<open>p\<close> of the ticker be known, let the
  ticker have a position with quantity \<open>q\<close> and cost \<open>c\<close>, and let the integers that
  \<open>process_trade\<close> converts to float be in the range of the doubles: the quantity \<open>n\<close>
  sold and, unless the cost is still the integer 0 of the constructor, the quantity \<open>q\<close>
  held. Then \<open>process_trade\<close> with \<open>SELL\<close> raises nothing, also for \<open>q = 0\<close> and for
  \<open>n > q\<close>. With \<open>avg = c / q\<close> (0 when \<open>q = 0\<close>) it hands the trade history a \<open>Sell\<close>
  with profit \<open>(p - avg) * n\<close> and cost \<open>avg * n\<close>, and leaves the position with quantity
  \<open>q - n\<close>, cost \<open>c - avg * n\<close> and cash increased by \<open>p * n\<close>. The trade history keeps
  that \<open>Sell\<close> when it holds none for the day and ticker, and otherwise keeps the one it
  holds.
\<close>

theorem sell_updates_position:
  assumes price: "get_daily_price price_daily year month day ticker = Inr p"
    and ref: "map_of (inventory_curr s) ticker = Some r"
    and alloc: "r < length (heap s)"
    and q: "q = qty (heap s ! r)"
    and c: "c = num_value (cost (heap s ! r))"
    and n_range: "\<bar>n\<bar> < 2 ^ 1024 - 2 ^ 970"
    and q_range: "cost (heap s ! r) = Int0 \<or> \<bar>q\<bar> < 2 ^ 1024 - 2 ^ 970"
    and avg: "avg = (if q = 0 then 0 else c / real_of_int q)"
    and ev: "ev = Sell ticker p n ((p - avg) * real_of_int n) (avg * real_of_int n)"
  shows "\<exists>s'. process_trade price_daily year month day ticker n SELL s = Inr s'
           \<and> qty (heap s' ! r) = q - n
           \<and> num_value (cost (heap s' ! r)) = c - avg * real_of_int n
           \<and> cash (heap s' ! r) = cash (heap s ! r) + p * real_of_int n
           \<and> value' (heap s' ! r) = value' (heap s ! r)
           \<and> trades s' = add_sell year month day ev (trades s)
           \<and> get_sell year month day ticker (trades s') =
               (case get_sell year month day ticker (trades s) of
                  None \<Rightarrow> Some ev
                | Some kept \<Rightarrow> Some kept)"
proof -
  from q_range q obtain a where a: "avg_price (heap s ! r) = Inr a"
    and av: "num_value a = avg" and a0: "a = Int0 \<longleftrightarrow> q = 0"
    using avg_price_value [of "heap s ! r"] by (auto simp: avg c)
  have fn: "float_of_int n = Inr (real_of_int n)"
    using n_range by (rule float_of_int_in_range)
  define s' where "s' = s\<lparr>trades := add_sell year month day ev (trades s),
      heap := (heap s)[r := (heap s ! r)
        \<lparr>cash := cash (heap s ! r) + p * real_of_int n,
         cost := (case a of Int0 \<Rightarrow> cost (heap s ! r)
                  | Float x \<Rightarrow> Float (num_value (cost (heap s ! r)) - x * real_of_int n)),
         qty := qty (heap s ! r) - n\<rparr>]\<rparr>"
  have run: "process_trade price_daily year month day ticker n SELL s = Inr s'"
    using price ref a fn
    by (simp add: process_trade_def and_then_def getitem_def SELL_def BUY_def Let_def
          s'_def ev av)
  have cost': "num_value (cost (heap s' ! r)) = c - avg * real_of_int n"
  proof (cases a)
    case Int0
    with a0 avg have "avg = 0" by simp
    then show ?thesis using alloc Int0 by (simp add: s'_def c)
  next
    case (Float x)
    with av have "x = avg" by simp
    then show ?thesis using alloc Float by (simp add: s'_def c)
  qed
  have stored: "get_sell year month day ticker (trades s') =
               (case get_sell year month day ticker (trades s) of
                  None \<Rightarrow> Some ev
                | Some kept \<Rightarrow> Some kept)"
    by (simp add: s'_def get_sell_def add_sell_def history_get_add ev Sell_def
             split: option.splits)
  have rest: "qty (heap s' ! r) = q - n
      \<and> cash (heap s' ! r) = cash (heap s ! r) + p * real_of_int n
      \<and> value' (heap s' ! r) = value' (heap s ! r)
      \<and> trades s' = add_sell year month day ev (trades s)"
    using alloc by (simp add: s'_def q)
  from run cost' stored rest show ?thesis by blast
qed

lemma aapl_price_day3: "get_daily_price aapl_prices 2020 1 3 ''AAPL'' = Inr 110"
  by (simp add: get_daily_price_def aapl_prices_def and_then_def getitem_def)

theorem sell_updates_position_witness:
  "get_daily_price aapl_prices 2020 1 3 ''AAPL'' = Inr 110
   \<and> map_of (inventory_curr aapl_held) ''AAPL'' = Some 0
   \<and> heap aapl_held ! 0 = \<lparr>qty = 10, cost = Float 1000, value' = 1000, cash = - 1000\<rparr>
   \<and> \<bar>5 :: int\<bar> < 2 ^ 1024 - 2 ^ 970 \<and> \<bar>10 :: int\<bar> < 2 ^ 1024 - 2 ^ 970
   \<and> get_sell 2020 1 3 ''AAPL'' (trades aapl_held) = None
   \<and> (\<exists>s'. process_trade aapl_prices 2020 1 3 ''AAPL'' 5 SELL aapl_held = Inr s'
         \<and> qty (heap s' ! 0) = 5
         \<and> num_value (cost (heap s' ! 0)) = 500
         \<and> cash (heap s' ! 0) = - 450
         \<and> get_sell 2020 1 3 ''AAPL'' (trades s') = Some (Sell ''AAPL'' 110 5 50 500))"
proof -
  have ref: "map_of (inventory_curr aapl_held) ''AAPL'' = Some 0"
    by (simp add: aapl_held_def)
  have alloc: "0 < length (heap aapl_held)"
    by (simp add: aapl_held_def)
  have pos: "heap aapl_held ! 0 = \<lparr>qty = 10, cost = Float 1000, value' = 1000, cash = - 1000\<rparr>"
    by (simp add: aapl_held_def)
  have n_range: "\<bar>5 :: int\<bar> < 2 ^ 1024 - 2 ^ 970"
    by simp
  have q_range: "\<bar>10 :: int\<bar> < 2 ^ 1024 - 2 ^ 970"
    by simp
  have q_range': "cost (heap aapl_held ! 0) = Int0 \<or> \<bar>10 :: int\<bar> < 2 ^ 1024 - 2 ^ 970"
    using q_range by (rule disjI2)
  have none: "get_sell 2020 1 3 ''AAPL'' (trades aapl_held) = None"
    by (simp add: aapl_held_def get_sell_def TradeHistory_init_def history_get_def)
  have q: "(10 :: int) = qty (heap aapl_held ! 0)" and c: "(1000 :: real) = num_value (cost (heap aapl_held ! 0))"
    by (simp_all add: pos)
  have avg: "(100 :: real) = (if (10 :: int) = 0 then 0 else 1000 / real_of_int 10)"
    by simp
  have ev: "Sell ''AAPL'' 110 5 50 500 =
      Sell ''AAPL'' 110 5 ((110 - 100) * real_of_int 5) (100 * real_of_int 5)"
    by simp
  from sell_updates_position [OF aapl_price_day3 ref alloc q c n_range q_range' avg ev] none
  have "\<exists>s'. process_trade aapl_prices 2020 1 3 ''AAPL'' 5 SELL aapl_held = Inr s'
         \<and> qty (heap s' ! 0) = 5
         \<and> num_value (cost (heap s' ! 0)) = 500
         \<and> cash (heap s' ! 0) = - 450
         \<and> get_sell 2020 1 3 ''AAPL'' (trades s') = Some (Sell ''AAPL'' 110 5 50 500)"
    by (auto simp: pos)
  with aapl_price_day3 ref pos n_range q_range none show ?thesis by simp
qed

text \<open>
  Claim C1 as stated fails in two ways. A second sell of the ticker on the same day
  changes the position, but the trade history keeps the first sell of that day and holds
  nothing of the second (which has quantity 2, profit 20 and cost 200). And a sell of
  \<open>10 ^ 400\<close> shares raises \<^verbatim>\<open>OverflowError\<close>, the integer being beyond the doubles.
\<close>

theorem second_sell_is_not_recorded:
  "process_trade aapl_prices 2020 1 3 ''AAPL'' 2 SELL after_buy_then_sell = Inr after_second_sell
   \<and> trades after_second_sell = trades after_buy_then_sell
   \<and> get_sell 2020 1 3 ''AAPL'' (trades after_second_sell) = Some (Sell ''AAPL'' 110 5 50 500)
   \<and> process_trade aapl_prices 2020 1 3 ''AAPL'' (10 ^ 400) SELL aapl_held = Inl OverflowError"
proof (intro conjI)
  show "process_trade aapl_prices 2020 1 3 ''AAPL'' 2 SELL after_buy_then_sell = Inr after_second_sell"
    by (simp add: process_trade_def and_then_def aapl_price_day3 getitem_def SELL_def BUY_def
          avg_price_def float_of_int_def add_sell_def history_add_def setdefault_in_def
          setdefault_def setitem_def Sell_def after_buy_then_sell_def after_second_sell_def)
  show "trades after_second_sell = trades after_buy_then_sell"
    by (simp add: after_buy_then_sell_def after_second_sell_def)
  show "get_sell 2020 1 3 ''AAPL'' (trades after_second_sell) = Some (Sell ''AAPL'' 110 5 50 500)"
    by (simp add: after_second_sell_def get_sell_def history_get_def)
  show "process_trade aapl_prices 2020 1 3 ''AAPL'' (10 ^ 400) SELL aapl_held = Inl OverflowError"
    by (simp add: process_trade_def and_then_def aapl_price_day3 getitem_def SELL_def BUY_def
          avg_price_def float_of_int_def aapl_held_def)
qed

section \<open>Binary64 rounding at given points\<close>

text \<open>
  Between \<open>2 ^ k\<close> and \<open>2 ^ (k + 1)\<close> the doubles are the multiples of \<open>2 ^ (k - 52)\<close>.
\<close>

lemma rnd_eval:
  assumes lo: "2 powi k \<le> \<bar>x\<bar>" and hi: "\<bar>x\<bar> < 2 powi (k + 1)" and k: "- 1022 \<le> k"
  shows "rnd x = of_int (round_half_even (x / 2 powi (k - 52))) * 2 powi (k - 52)"
proof -
  have pos: "0 < \<bar>x\<bar>"
    using lo by (smt (verit) zero_less_power_int)
  have p1: "(2::real) powr real_of_int k = 2 powi k"
    by (simp add: powr_real_of_int')
  have p2: "(2::real) powr (real_of_int k + 1) = 2 powi (k + 1)"
    using powr_real_of_int' [of 2 "k + 1"] by simp
  have "\<lfloor>log 2 \<bar>x\<bar>\<rfloor> = k"
    using lo hi pos by (simp add: floor_log_eq_powr_iff p1 p2)
  then have "ulp_exponent x = k - 52"
    using k by (simp add: ulp_exponent_def)
  moreover have "x \<noteq> 0" using pos by auto
  ultimately show ?thesis by (simp add: rnd_def)
qed

section \<open>Realized figures over a concatenation of date lists\<close>

lemma sum_tickers_acc:
  "sum_tickers (+) th date tickers (p, c) =
     (p + fst (sum_tickers (+) th date tickers (0, 0)),
      c + snd (sum_tickers (+) th date tickers (0, 0)))"
proof (induction tickers arbitrary: p c)
  case Nil
  then show ?case by simp
next
  case (Cons t ts)
  obtain y m d where date: "date = (y, m, d)" by (cases date) auto
  show ?case
  proof (cases "get_sell y m d t th")
    case None
    then show ?thesis using Cons.IH [of p c] by (simp add: date)
  next
    case (Some s)
    then show ?thesis
      using Cons.IH [of "p + sell_profit s" "c + sell_cost s"]
        Cons.IH [of "sell_profit s" "sell_cost s"]
      by (simp add: date)
  qed
qed

lemma sum_dates_acc:
  "sum_dates (+) th dates tickers (p, c) =
     (p + fst (sum_dates (+) th dates tickers (0, 0)),
      c + snd (sum_dates (+) th dates tickers (0, 0)))"
proof (induction dates arbitrary: p c)
  case Nil
  then show ?case by simp
next
  case (Cons date dates)
  obtain p1 c1 where one: "sum_tickers (+) th date tickers (0, 0) = (p1, c1)"
    by (cases "sum_tickers (+) th date tickers (0, 0)") auto
  have step: "sum_tickers (+) th date tickers (p, c) = (p + p1, c + c1)"
    using sum_tickers_acc [of th date tickers p c] by (simp add: one)
  show ?case
    using Cons.IH [of "p + p1" "c + c1"] Cons.IH [of p1 c1]
    by (simp add: step one)
qed

lemma sum_dates_append:
  "sum_dates fadd th (A @ B) tickers acc = sum_dates fadd th B tickers (sum_dates fadd th A tickers acc)"
  by (induction A arbitrary: acc) simp_all

text \<open>
  Claim C9, as the code has it. For any two date lists \<open>A\<close> and \<open>B\<close>, any ticker list and
  any trade history, whatever the float addition does, the figures of \<open>sum_profits_costs\<close>
  over \<open>A @ B\<close> are those of its loop continued over \<open>B\<close> from the figures over \<open>A\<close>. With
  exact addition they are the componentwise sums of the figures over \<open>A\<close> and over \<open>B\<close>.
\<close>

theorem sum_profits_costs_continues:
  "sum_profits_costs fadd th (A @ B) tickers
     = sum_dates fadd th B tickers (sum_profits_costs fadd th A tickers)
   \<and> sum_profits_costs (+) th (A @ B) tickers =
       (fst (sum_profits_costs (+) th A tickers) + fst (sum_profits_costs (+) th B tickers),
        snd (sum_profits_costs (+) th A tickers) + snd (sum_profits_costs (+) th B tickers))"
proof
  show "sum_profits_costs fadd th (A @ B) tickers
     = sum_dates fadd th B tickers (sum_profits_costs fadd th A tickers)"
    by (simp add: sum_profits_costs_def sum_dates_append)
next
  obtain p c where a: "sum_dates (+) th A tickers (0, 0) = (p, c)"
    by (cases "sum_dates (+) th A tickers (0, 0)") auto
  show "sum_profits_costs (+) th (A @ B) tickers =
       (fst (sum_profits_costs (+) th A tickers) + fst (sum_profits_costs (+) th B tickers),
        snd (sum_profits_costs (+) th A tickers) + snd (sum_profits_costs (+) th B tickers))"
    using sum_dates_acc [of th B tickers p c]
    by (simp add: sum_profits_costs_def sum_dates_append a)
qed


lemma add_0_01: "double_add 0 double_0_1 = double_0_1"
  unfolding double_add_def double_0_1_def
  by (subst rnd_eval [where k = "- 4"]) (simp_all add: round_half_even_def power_int_minus)

lemma add_01_02: "double_add double_0_1 double_0_2 = 5404319552844596 / 2 ^ 54"
  unfolding double_add_def double_0_1_def double_0_2_def
  by (subst rnd_eval [where k = "- 2"]) (simp_all add: round_half_even_def power_int_minus)

lemma add_03u_03: "double_add (5404319552844596 / 2 ^ 54) double_0_3 = 5404319552844596 / 2 ^ 53"
  unfolding double_add_def double_0_3_def
  by (subst rnd_eval [where k = "- 1"]) (simp_all add: round_half_even_def power_int_minus)

lemma add_0_02: "double_add 0 double_0_2 = double_0_2"
  unfolding double_add_def double_0_2_def
  by (subst rnd_eval [where k = "- 3"]) (simp_all add: round_half_even_def power_int_minus)

lemma add_02_03: "double_add double_0_2 double_0_3 = 1 / 2"
  unfolding double_add_def double_0_2_def double_0_3_def
  by (subst rnd_eval [where k = "- 1"]) (simp_all add: round_half_even_def power_int_minus)

lemma add_01_05: "double_add double_0_1 (1 / 2) = 5404319552844595 / 2 ^ 53"
  unfolding double_add_def double_0_1_def
  by (subst rnd_eval [where k = "- 1"]) (simp_all add: round_half_even_def power_int_minus)

lemma three_sells_lookup:
  "get_sell 2020 1 2 ''AAPL'' three_sells = Some (Sell ''AAPL'' 1 1 double_0_1 double_0_1)"
  "get_sell 2020 1 3 ''AAPL'' three_sells = Some (Sell ''AAPL'' 1 1 double_0_2 double_0_2)"
  "get_sell 2020 1 6 ''AAPL'' three_sells = Some (Sell ''AAPL'' 1 1 double_0_3 double_0_3)"
  by (simp_all add: three_sells_def get_sell_def history_get_def)

lemma three_sells_all:
  "sum_profits_costs double_add three_sells ([(2020, 1, 2)] @ [(2020, 1, 3), (2020, 1, 6)]) [''AAPL'']
     = (double_add (double_add (double_add 0 double_0_1) double_0_2) double_0_3,
        double_add (double_add (double_add 0 double_0_1) double_0_2) double_0_3)"
  by (simp add: sum_profits_costs_def three_sells_lookup Sell_def)

lemma three_sells_first:
  "sum_profits_costs double_add three_sells [(2020, 1, 2)] [''AAPL'']
     = (double_add 0 double_0_1, double_add 0 double_0_1)"
  by (simp add: sum_profits_costs_def three_sells_lookup Sell_def)

lemma three_sells_rest:
  "sum_profits_costs double_add three_sells [(2020, 1, 3), (2020, 1, 6)] [''AAPL'']
     = (double_add (double_add 0 double_0_2) double_0_3,
        double_add (double_add 0 double_0_2) double_0_3)"
  by (simp add: sum_profits_costs_def three_sells_lookup Sell_def)

text \<open>
  Claim C9 as stated fails for floats. With sells of \<^verbatim>\<open>0.1\<close>, \<^verbatim>\<open>0.2\<close> and \<^verbatim>\<open>0.3\<close> on
  three days, the realized profit over the first day followed by the other two is
  \<^verbatim>\<open>0.6000000000000001\<close>, and the float sum of the profit over the first day and the
  profit over the other two is \<^verbatim>\<open>0.6\<close>.
\<close>

theorem float_sum_not_additive:
  "fst (sum_profits_costs double_add three_sells
          ([(2020, 1, 2)] @ [(2020, 1, 3), (2020, 1, 6)]) [''AAPL''])
     = 5404319552844596 / 2 ^ 53
   \<and> double_add
        (fst (sum_profits_costs double_add three_sells [(2020, 1, 2)] [''AAPL'']))
        (fst (sum_profits_costs double_add three_sells [(2020, 1, 3), (2020, 1, 6)] [''AAPL'']))
     = 5404319552844595 / 2 ^ 53
   \<and> (5404319552844596 / 2 ^ 53 :: real) \<noteq> 5404319552844595 / 2 ^ 53"
proof (intro conjI)
  have "double_add (double_add (double_add 0 double_0_1) double_0_2) double_0_3
          = 5404319552844596 / 2 ^ 53"
    by (subst add_0_01, subst add_01_02, rule add_03u_03)
  then show "fst (sum_profits_costs double_add three_sells
          ([(2020, 1, 2)] @ [(2020, 1, 3), (2020, 1, 6)]) [''AAPL''])
     = 5404319552844596 / 2 ^ 53"
    unfolding three_sells_all fst_conv .
next
  have "double_add (double_add 0 double_0_1) (double_add (double_add 0 double_0_2) double_0_3)
          = 5404319552844595 / 2 ^ 53"
    by (subst add_0_01, subst add_0_02, subst add_02_03, rule add_01_05)
  then show "double_add
        (fst (sum_profits_costs double_add three_sells [(2020, 1, 2)] [''AAPL'']))
        (fst (sum_profits_costs double_add three_sells [(2020, 1, 3), (2020, 1, 6)] [''AAPL'']))
     = 5404319552844595 / 2 ^ 53"
    unfolding three_sells_first three_sells_rest fst_conv .
next
  show "(5404319552844596 / 2 ^ 53 :: real) \<noteq> 5404319552844595 / 2 ^ 53"
    by simp
qed


section \<open>Beta of a series against itself\<close>

lemma map2_same: "map2 f xs xs = map (\<lambda>x. f x x) xs"
  by (induction xs) simp_all

lemma get_beta_self:
  assumes len: "2 \<le> length xs" and var: "np_var xs = Some v" and nz: "v \<noteq> 0"
  shows "get_beta xs xs = Inr (Some (real (length xs) / (real (length xs) - 1)))"
proof -
  from len have ne: "xs \<noteq> []" by auto
  define m where "m = sum_list xs / real (length xs)"
  define S where "S = sum_list (map (\<lambda>x. (x - m)\<^sup>2) xs)"
  have mean: "np_mean xs = Some m" using ne by (simp add: np_mean_def m_def)
  have v: "v = S / real (length xs)" using var by (simp add: np_var_def mean S_def)
  have S: "S \<noteq> 0" using nz v by auto
  have cov: "np_cov_01 xs xs = Inr (Some (S / (real (length xs) - 1)))"
    using len by (simp add: np_cov_01_def mean map2_same S_def power2_eq_square)
  have n1: "real (length xs) - 1 \<noteq> 0" using len by auto
  have n0: "real (length xs) \<noteq> 0" using ne by auto
  show ?thesis
    using S n1 n0 nz by (simp add: get_beta_def cov and_then_def float_div_def var v)
qed

text \<open>
  Claim C4. The beta that \<open>get_alpha\<close> uses is \<open>get_beta ret_market ret_market\<close>. At the
  market returns \<open>[1, 3]\<close> (variance 1) it is 2 and not 1: \<^verbatim>\<open>np.cov\<close> divides by
  \<open>N - 1\<close> where \<^verbatim>\<open>np.var\<close> divides by \<open>N\<close>, so the quotient is \<open>N / (N - 1)\<close>, as
  \<open>get_beta_self\<close> shows for every series of nonzero variance. With a total market
  return of 10 and a portfolio return of 5, \<open>get_alpha\<close> is then
  \<open>5 - 0.02 - 2 * (10 - 0.02) = - 14.98\<close>.
\<close>

theorem get_beta_self_is_two:
  "get_beta [1, 3] [1, 3] = Inr (Some 2)
   \<and> get_alpha [1, 3] 10 5 = Inr (Some (- 1498 / 100))"
  by (simp add: get_alpha_def get_beta_def np_cov_01_def np_mean_def np_var_def and_then_def
        float_div_def power2_eq_square RISK_FREE_RATE_def)

section \<open>The Sharpe ratio\<close>

text \<open>
  Where the numpy results for \<^verbatim>\<open>[0.05, 0.05, 0.05]\<close> come from: in binary64 the sum of
  the three terms divided by 3 is one unit in the last place above \<^verbatim>\<open>0.05\<close>, each
  deviation is \<open>- 2 ^ - 57\<close>, and the root of the mean of their squares is \<open>2 ^ - 57\<close>
  (with three equal terms the order of the additions does not matter).
\<close>

lemma sqrt_2_114: "sqrt (1 / 2 ^ 114) = 1 / 2 ^ 57"
  by (rule real_sqrt_unique) (simp_all add: power2_eq_square)

lemma binary64_mean_std_005:
  "rnd (rnd (rnd (3602879701896397 / 2 ^ 56 + 3602879701896397 / 2 ^ 56)
               + 3602879701896397 / 2 ^ 56) / 3) = 7205759403792795 / 2 ^ 57"
  "rnd (3602879701896397 / 2 ^ 56 - 7205759403792795 / 2 ^ 57) = - (1 / 2 ^ 57)"
  "rnd (- (1 / 2 ^ 57) * - (1 / 2 ^ 57)) = 1 / 2 ^ 114"
  "rnd (rnd (rnd (1 / 2 ^ 114 + 1 / 2 ^ 114) + 1 / 2 ^ 114) / 3) = 1 / 2 ^ 114"
  "rnd (sqrt (1 / 2 ^ 114)) = 1 / 2 ^ 57"
proof -
  have s1: "rnd (3602879701896397 / 2 ^ 56 + 3602879701896397 / 2 ^ 56) = 3602879701896397 / 2 ^ 55"
    by (subst rnd_eval [where k = "- 4"]) (simp_all add: round_half_even_def power_int_minus)
  have s2: "rnd (3602879701896397 / 2 ^ 55 + 3602879701896397 / 2 ^ 56) = 5404319552844596 / 2 ^ 55"
    by (subst rnd_eval [where k = "- 3"]) (simp_all add: round_half_even_def power_int_minus)
  have s3: "rnd (5404319552844596 / 2 ^ 55 / 3) = 7205759403792795 / 2 ^ 57"
    by (subst rnd_eval [where k = "- 5"]) (simp_all add: round_half_even_def power_int_minus)
  show "rnd (rnd (rnd (3602879701896397 / 2 ^ 56 + 3602879701896397 / 2 ^ 56)
               + 3602879701896397 / 2 ^ 56) / 3) = 7205759403792795 / 2 ^ 57"
    by (subst s1, subst s2, rule s3)
  show "rnd (3602879701896397 / 2 ^ 56 - 7205759403792795 / 2 ^ 57) = - (1 / 2 ^ 57)"
    by (subst rnd_eval [where k = "- 57"]) (simp_all add: round_half_even_def power_int_minus)
  show "rnd (- (1 / 2 ^ 57) * - (1 / 2 ^ 57)) = 1 / 2 ^ 114"
    by (subst rnd_eval [where k = "- 114"]) (simp_all add: round_half_even_def power_int_minus)
  have v1: "rnd (1 / 2 ^ 114 + 1 / 2 ^ 114) = 1 / 2 ^ 113"
    by (subst rnd_eval [where k = "- 113"]) (simp_all add: round_half_even_def power_int_minus)
  have v2: "rnd (1 / 2 ^ 113 + 1 / 2 ^ 114) = 3 / 2 ^ 114"
    by (subst rnd_eval [where k = "- 113"]) (simp_all add: round_half_even_def power_int_minus)
  have v3: "rnd (3 / 2 ^ 114 / 3) = 1 / 2 ^ 114"
    by (subst rnd_eval [where k = "- 114"]) (simp_all add: round_half_even_def power_int_minus)
  show "rnd (rnd (rnd (1 / 2 ^ 114 + 1 / 2 ^ 114) + 1 / 2 ^ 114) / 3) = 1 / 2 ^ 114"
    by (subst v1, subst v2, rule v3)
  show "rnd (sqrt (1 / 2 ^ 114)) = 1 / 2 ^ 57"
    by (subst sqrt_2_114, subst rnd_eval [where k = "- 57"])
       (simp_all add: round_half_even_def power_int_minus)
qed




section \<open>The constructor of Inventory\<close>

lemma set_setitem: "set (setitem k v d) \<subseteq> insert (k, v) (set d)"
  unfolding setitem_def by (induction d) auto

lemma keys_setitem: "set (keys (setitem k v d)) = insert k (set (keys d))"
  using dom_update [of k v d] by (simp add: keys_def setitem_def)

lemma distinct_keys_setitem: "distinct (keys d) \<Longrightarrow> distinct (keys (setitem k v d))"
  by (simp add: keys_def setitem_def distinct_update)

lemma distinct_refs_setitem:
  "distinct (map snd d) \<Longrightarrow> v \<notin> snd ` set d \<Longrightarrow> distinct (map snd (setitem k v d))"
  unfolding setitem_def
proof (induction d)
  case Nil
  then show ?case by simp
next
  case (Cons p d)
  have sub: "snd ` set (AList.update k v d) \<subseteq> insert v (snd ` set d)"
    using set_setitem [of k v d] by (force simp: setitem_def)
  from Cons show ?case using sub by (auto simp: image_iff)
qed

lemma fresh_assets_step:
  assumes "fresh_assets n (inventory, h)"
  shows "fresh_assets n (setitem ticker (length h) inventory, h @ [Asset_init])"
proof -
  from assms have dk: "distinct (keys inventory)" and dr: "distinct (map snd inventory)"
    and n: "n \<le> length h"
    and old: "\<And>t r. (t, r) \<in> set inventory \<Longrightarrow> n \<le> r \<and> r < length h \<and> h ! r = Asset_init"
    by (auto simp: fresh_assets_def)
  have notin: "length h \<notin> snd ` set inventory"
    using old by fastforce
  have new: "\<And>t r. (t, r) \<in> set (setitem ticker (length h) inventory)
      \<Longrightarrow> n \<le> r \<and> r < length (h @ [Asset_init]) \<and> (h @ [Asset_init]) ! r = Asset_init"
  proof -
    fix t r assume "(t, r) \<in> set (setitem ticker (length h) inventory)"
    then have "(t, r) = (ticker, length h) \<or> (t, r) \<in> set inventory"
      using set_setitem [of ticker "length h" inventory] by auto
    then show "n \<le> r \<and> r < length (h @ [Asset_init]) \<and> (h @ [Asset_init]) ! r = Asset_init"
      using old [of t r] n by (auto simp: nth_append)
  qed
  show ?thesis
    using distinct_keys_setitem [OF dk] distinct_refs_setitem [OF dr notin] n new
    by (auto simp: fresh_assets_def)
qed

lemma Inventory_fold:
  assumes "fresh_assets n (inventory, h)"
  shows "fresh_assets n
           (fold (\<lambda>ticker (assets, h'). (setitem ticker (length h') assets, h' @ [Asset_init]))
              tickers (inventory, h))
         \<and> set (keys (fst (fold (\<lambda>ticker (assets, h'). (setitem ticker (length h') assets, h' @ [Asset_init]))
              tickers (inventory, h)))) = set (keys inventory) \<union> set tickers
         \<and> snd (fold (\<lambda>ticker (assets, h'). (setitem ticker (length h') assets, h' @ [Asset_init]))
              tickers (inventory, h)) = h @ replicate (length tickers) Asset_init"
  using assms
proof (induction tickers arbitrary: inventory h)
  case Nil
  then show ?case by simp
next
  case (Cons t ts)
  from Cons.IH [OF fresh_assets_step [OF Cons.prems, of t]]
  show ?case by (simp add: keys_setitem replicate_append_same)
qed

text \<open>
  Claim C10. \<open>Inventory_init\<close> returns the same inventory whatever is passed as
  \<open>tickers_interested\<close> (the two arguments may even differ in type): its keys are exactly
  the tickers of \<open>all_tickers\<close>, each once, and each ticker refers to an \<open>Asset\<close> of its
  own, newly allocated and zero in all four attributes.
\<close>

theorem Inventory_init_ignores_argument:
  "Inventory_init t1 all_tickers h = Inventory_init t2 all_tickers h
   \<and> (case Inventory_init t1 all_tickers h of
        (inventory, h') \<Rightarrow>
          set (keys inventory) = set all_tickers \<and> distinct (keys inventory)
          \<and> distinct (map snd inventory)
          \<and> h' = h @ replicate (length all_tickers) Asset_init
          \<and> (\<forall>ticker \<in> set all_tickers. \<exists>r. map_of inventory ticker = Some r
                \<and> length h \<le> r \<and> r < length h' \<and> h' ! r = Asset_init))"
proof -
  have start: "fresh_assets (length h) ([], h)"
    by (simp add: fresh_assets_def keys_def)
  obtain inventory h' where res: "Inventory_init t1 all_tickers h = (inventory, h')"
    by (cases "Inventory_init t1 all_tickers h") auto
  from Inventory_fold [OF start, of all_tickers] res
  have fresh: "fresh_assets (length h) (inventory, h')"
    and ks: "set (keys inventory) = set all_tickers"
    and hp: "h' = h @ replicate (length all_tickers) Asset_init"
    by (auto simp: Inventory_init_def keys_def)
  have each: "\<exists>r. map_of inventory ticker = Some r
                \<and> length h \<le> r \<and> r < length h' \<and> h' ! r = Asset_init"
    if "ticker \<in> set all_tickers" for ticker
  proof -
    from that ks have "ticker \<in> fst ` set inventory" by (simp add: keys_def)
    then obtain r where r: "map_of inventory ticker = Some r"
      by (cases "map_of inventory ticker") (auto simp: map_of_eq_None_iff)
    then have "(ticker, r) \<in> set inventory" by (rule map_of_SomeD)
    with fresh r show ?thesis by (auto simp: fresh_assets_def)
  qed
  have same: "Inventory_init t1 all_tickers h = Inventory_init t2 all_tickers h"
    by (simp add: Inventory_init_def)
  have built: "case Inventory_init t1 all_tickers h of
        (inventory, h') \<Rightarrow>
          set (keys inventory) = set all_tickers \<and> distinct (keys inventory)
          \<and> distinct (map snd inventory)
          \<and> h' = h @ replicate (length all_tickers) Asset_init
          \<and> (\<forall>ticker \<in> set all_tickers. \<exists>r. map_of inventory ticker = Some r
                \<and> length h \<le> r \<and> r < length h' \<and> h' ! r = Asset_init)"
    using fresh ks hp each by (simp add: res fresh_assets_def)
  from same built show ?thesis by (rule conjI)
qed

theorem Inventory_init_ignores_argument_witness:
  "Inventory_init [''SPY''] [''SPY'', ''QQQ''] [] = Inventory_init (7 :: int) [''SPY'', ''QQQ''] []
   \<and> Inventory_init [''SPY''] [''SPY'', ''QQQ''] [] =
       ([(''SPY'', 0), (''QQQ'', 1)], [Asset_init, Asset_init])"
proof -
  have "Inventory_init [''SPY''] [''SPY'', ''QQQ''] [] =
       ([(''SPY'', 0), (''QQQ'', 1)], [Asset_init, Asset_init])"
    by (simp add: Inventory_init_def setitem_def)
  with Inventory_init_ignores_argument [of "[''SPY'']" "[''SPY'', ''QQQ'']" "[]" "7 :: int"]
  show ?thesis by simp
qed

section \<open>Quantities under buying and selling\<close>

lemma long_only_init: "long_only (init_state all_tickers)"
proof -
  obtain inventory h where res: "Inventory_init all_tickers all_tickers [] = (inventory, h)"
    by (cases "Inventory_init all_tickers all_tickers []") auto
  have start: "fresh_assets 0 ([], [])" by (simp add: fresh_assets_def keys_def)
  from Inventory_fold [OF start, of all_tickers] res
  have fresh: "fresh_assets 0 (inventory, h)"
    and hp: "h = replicate (length all_tickers) Asset_init"
    by (auto simp: Inventory_init_def)
  show ?thesis
    using fresh hp by (auto simp: long_only_def init_state_def res fresh_assets_def Asset_init_def)
qed

lemma process_trade_heap:
  assumes "process_trade price_daily year month day ticker n order_type s = Inr s'"
  shows "\<exists>r a'. map_of (inventory_curr s) ticker = Some r
           \<and> heap s' = (heap s)[r := a']
           \<and> inventory_curr s' = inventory_curr s
           \<and> qty a' = (if order_type = BUY then qty (heap s ! r) + n
                        else qty (heap s ! r) - n)"
  using assms
  by (auto simp: process_trade_def and_then_def getitem_def Let_def
           split: sum.splits option.splits if_splits)

lemma long_only_step:
  assumes inv: "long_only s"
    and pos: "0 < n"
    and cov: "order_type \<noteq> BUY \<longrightarrow>
         (case getitem (inventory_curr s) ticker of Inl e \<Rightarrow> True | Inr r \<Rightarrow> n \<le> qty (heap s ! r))"
    and step: "process_trade price_daily year month day ticker n order_type s = Inr s'"
  shows "long_only s'"
proof -
  from process_trade_heap [OF step] obtain r a'
    where r: "map_of (inventory_curr s) ticker = Some r"
      and h: "heap s' = (heap s)[r := a']"
      and i: "inventory_curr s' = inventory_curr s"
      and qa: "qty a' = (if order_type = BUY then qty (heap s ! r) + n
                        else qty (heap s ! r) - n)"
    by blast
  from r have "(ticker, r) \<in> set (inventory_curr s)" by (rule map_of_SomeD)
  with inv have rlen: "r < length (heap s)" by (auto simp: long_only_def)
  then have old: "0 \<le> qty (heap s ! r)" using inv by (auto simp: long_only_def)
  have refs: "\<forall>(ticker, r) \<in> set (inventory_curr s'). r < length (heap s')"
    using inv by (auto simp: h i long_only_def)
  have newq: "0 \<le> qty a'"
    using old pos cov r by (auto simp: qa getitem_def)
  have "a \<in> set (heap s') \<Longrightarrow> 0 \<le> qty a" for a
  proof -
    assume a: "a \<in> set (heap s')"
    have "set (heap s') \<subseteq> insert a' (set (heap s))"
      unfolding h by (rule set_update_subset_insert)
    with a have "a = a' \<or> a \<in> set (heap s)" by auto
    then show "0 \<le> qty a" using newq inv by (auto simp: long_only_def)
  qed
  with refs show ?thesis by (simp add: long_only_def)
qed

lemma long_only_run:
  assumes "long_only s"
    and "\<forall>row \<in> set rows. 0 < trade_qty row"
    and "sells_covered price_daily rows s"
    and "process_trades price_daily rows s = Inr s'"
  shows "long_only s'"
  using assms
proof (induction rows arbitrary: s)
  case Nil
  then show ?case by simp
next
  case (Cons row rows)
  obtain year month day ticker n order_type where row: "row = (year, month, day, ticker, n, order_type)"
    by (cases row) auto
  from Cons.prems(4) obtain s1 where
    s1: "process_trade price_daily year month day ticker n order_type s = Inr s1"
    and rest: "process_trades price_daily rows s1 = Inr s'"
    by (auto simp: row split: sum.splits)
  from Cons.prems(2) have pos: "0 < n" by (simp add: row trade_qty_def)
  from Cons.prems(3) have cov: "order_type \<noteq> BUY \<longrightarrow>
         (case getitem (inventory_curr s) ticker of Inl e \<Rightarrow> True | Inr r \<Rightarrow> n \<le> qty (heap s ! r))"
    and cov': "sells_covered price_daily rows s1"
    by (simp_all add: row s1)
  have "long_only s1" using long_only_step [OF Cons.prems(1) pos cov s1] .
  from Cons.IH [OF this _ cov' rest] Cons.prems(2) show ?case by simp
qed

text \<open>
  Claim C3, as the code has it. \<open>process_trade\<close> has no guard on the quantity sold, so
  the claim holds for the runs in which no sell exceeds the quantity held at that time:
  starting from the zero inventory, after any such sequence of trades with positive
  quantities every position of the live inventory has a quantity of at least 0.
\<close>

theorem quantity_nonnegative_when_sells_covered:
  assumes "\<forall>row \<in> set rows. 0 < trade_qty row"
    and "sells_covered price_daily rows (init_state all_tickers)"
    and "process_trades price_daily rows (init_state all_tickers) = Inr s"
  shows "\<forall>(ticker, r) \<in> set (inventory_curr s). 0 \<le> qty (heap s ! r)"
  using long_only_run [OF long_only_init assms]
  by (auto simp: long_only_def)

lemma SELL_not_BUY: "SELL \<noteq> BUY"
  by (simp add: SELL_def BUY_def)

lemma aapl_price_day2: "get_daily_price aapl_prices 2020 1 2 ''AAPL'' = Inr 100"
  by (simp add: get_daily_price_def aapl_prices_def and_then_def getitem_def)

lemma init_aapl:
  "init_state [''AAPL''] =
     \<lparr>heap = [Asset_init], inventory_curr = [(''AAPL'', 0)], inventory_snapshot = [],
      trades = TradeHistory_init\<rparr>"
  by (simp add: init_state_def Inventory_init_def setitem_def)

lemma buy_day2:
  "process_trade aapl_prices 2020 1 2 ''AAPL'' 10 BUY (init_state [''AAPL'']) =
     Inr \<lparr>heap = [\<lparr>qty = 10, cost = Float 1000, value' = 0, cash = - 1000\<rparr>],
          inventory_curr = [(''AAPL'', 0)], inventory_snapshot = [],
          trades = \<lparr>buy_history = [(2020, [(1, [(2, [(''AAPL'', Buy ''AAPL'' 100 10)])])])],
                    sell_history = []\<rparr>\<rparr>"
  by (simp add: init_aapl process_trade_def and_then_def aapl_price_day2 getitem_def
        float_of_int_def Asset_init_def add_buy_def TradeHistory_init_def history_add_def
        setdefault_in_def setdefault_def setitem_def Buy_def)

lemma sell_day3:
  "process_trade aapl_prices 2020 1 3 ''AAPL'' 5 SELL
     \<lparr>heap = [\<lparr>qty = 10, cost = Float 1000, value' = 0, cash = - 1000\<rparr>],
      inventory_curr = [(''AAPL'', 0)], inventory_snapshot = [],
      trades = \<lparr>buy_history = [(2020, [(1, [(2, [(''AAPL'', Buy ''AAPL'' 100 10)])])])],
                sell_history = []\<rparr>\<rparr> = Inr after_buy_then_sell"
  by (simp add: process_trade_def and_then_def aapl_price_day3 getitem_def SELL_def BUY_def
        avg_price_def float_of_int_def add_sell_def history_add_def setdefault_in_def
        setdefault_def setitem_def Sell_def after_buy_then_sell_def)

theorem quantity_nonnegative_when_sells_covered_witness:
  "list_all (\<lambda>row. 0 < trade_qty row) buy_then_sell
   \<and> sells_covered aapl_prices buy_then_sell (init_state [''AAPL''])
   \<and> process_trades aapl_prices buy_then_sell (init_state [''AAPL'']) = Inr after_buy_then_sell
   \<and> inventory_curr after_buy_then_sell = [(''AAPL'', 0)]
   \<and> 0 \<le> qty (heap after_buy_then_sell ! 0)"
proof -
  have pos: "\<forall>row \<in> set buy_then_sell. 0 < trade_qty row"
    by (simp add: buy_then_sell_def trade_qty_def)
  have run: "process_trades aapl_prices buy_then_sell (init_state [''AAPL'']) = Inr after_buy_then_sell"
    by (simp add: buy_then_sell_def buy_day2 sell_day3)
  have cov: "sells_covered aapl_prices buy_then_sell (init_state [''AAPL''])"
    by (simp add: buy_then_sell_def buy_day2 sell_day3 getitem_def SELL_not_BUY)
  have live: "inventory_curr after_buy_then_sell = [(''AAPL'', 0)]"
    by (simp add: after_buy_then_sell_def)
  from quantity_nonnegative_when_sells_covered [OF pos cov run]
  have "0 \<le> qty (heap after_buy_then_sell ! 0)"
    by (simp add: live)
  with pos cov run live show ?thesis
    by (simp add: list_all_iff)
qed


text \<open>
  Claim C3 as stated fails: one sell of one share from the zero inventory, a trade with
  positive quantity, leaves the position at quantity \<open>-1\<close>.
\<close>

theorem oversell_goes_negative:
  "process_trades aapl_prices [(2020, 1, 3, ''AAPL'', 1, SELL)] (init_state [''AAPL'']) =
     Inr \<lparr>heap = [\<lparr>qty = - 1, cost = Int0, value' = 0, cash = 110\<rparr>],
          inventory_curr = [(''AAPL'', 0)], inventory_snapshot = [],
          trades = \<lparr>buy_history = [],
            sell_history = [(2020, [(1, [(3, [(''AAPL'', Sell ''AAPL'' 110 1 110 0)])])])]\<rparr>\<rparr>"
  by (simp add: init_state_def Inventory_init_def setitem_def process_trade_def and_then_def
        aapl_price_day3 getitem_def SELL_def BUY_def avg_price_def float_of_int_def
        Asset_init_def add_sell_def TradeHistory_init_def history_add_def setdefault_in_def
        setdefault_def Sell_def)

section \<open>The closest available date\<close>

text \<open>
  Claim C2. Asked for 2021-02-04 in an index that holds 2020-01-02 and 2020-03-05, the
  lookup succeeds with 2020-01-02: having stepped back to the year 2020 it still bounds
  the month by the target's month 2. The indexed date 2020-03-05 is not later than the
  target and is later than the date returned, which is therefore not the latest.
\<close>

theorem closest_date_not_latest:
  "get_closest_available_date 2021 2 4 gap_index = Inr (2020, 1, 2)
   \<and> indexed gap_index (2020, 3, 5)
   \<and> date_le (2020, 3, 5) (2021, 2, 4)
   \<and> \<not> date_le (2020, 3, 5) (2020, 1, 2)"
  by (simp add: get_closest_available_date_def closest_month_def closest_day_def max_le_def
        keys_def getitem_def and_then_def gap_index_def indexed_def date_le_def)

text \<open>
  What does hold of the lookup: a date it returns is indexed and not later than the
  target, and a target that is indexed is returned itself.
\<close>

lemma max_le_Inr:
  assumes "max_le ks b = Inr k"
  shows "k \<in> set ks \<and> k \<le> b"
proof -
  from assms obtain k0 rest where f: "filter (\<lambda>key. key \<le> b) ks = k0 # rest"
    and k: "k = fold max rest k0"
    by (auto simp: max_le_def split: list.splits)
  have "k = Max (set (k0 # rest))" unfolding k by (rule Max.set_eq_fold [symmetric])
  then have "k \<in> set (k0 # rest)" using Max_in [of "set (k0 # rest)"] by simp
  then have "k \<in> set (filter (\<lambda>key. key \<le> b) ks)" by (simp add: f)
  then show ?thesis by simp
qed

lemma max_le_exact:
  assumes "b \<in> set ks"
  shows "max_le ks b = Inr b"
proof -
  from assms have mem: "b \<in> set (filter (\<lambda>key. key \<le> b) ks)" by simp
  then obtain k0 rest where f: "filter (\<lambda>key. key \<le> b) ks = k0 # rest"
    by (cases "filter (\<lambda>key. key \<le> b) ks") auto
  have "set (k0 # rest) = {k \<in> set ks. k \<le> b}"
    unfolding f [symmetric] by simp
  then have le: "\<forall>k \<in> set (k0 # rest). k \<le> b"
    by blast
  have "b \<in> set (k0 # rest)" using mem by (simp add: f)
  then have "Max (set (k0 # rest)) = b"
    using le by (intro Max_eqI) auto
  then have "fold max rest k0 = b" by (simp only: Max.set_eq_fold)
  then show ?thesis by (simp add: max_le_def f)
qed

lemma getitem_Inr: "getitem d k = Inr v \<longleftrightarrow> map_of d k = Some v"
  by (simp add: getitem_def split: option.splits)

lemma in_keys_iff: "k \<in> set (keys d) \<longleftrightarrow> map_of d k \<noteq> None"
  by (simp add: keys_def map_of_eq_None_iff)

lemma closest_month_sound:
  assumes "closest_month year1 month d = Inr (year2, month2)"
  shows "(\<exists>ms. map_of d year2 = Some ms \<and> month2 \<in> set (keys ms))
         \<and> (year2 < year1 \<or> (year2 = year1 \<and> month2 \<le> month))"
proof (cases "and_then (getitem d year1) (\<lambda>ms. max_le (keys ms) month)")
  case (Inr month')
  then obtain ms where ms: "map_of d year1 = Some ms" and mx: "max_le (keys ms) month = Inr month'"
    by (auto simp: and_then_def getitem_def split: option.splits)
  from assms Inr have "year2 = year1" "month2 = month'" by (simp_all add: closest_month_def)
  with ms max_le_Inr [OF mx] show ?thesis by simp
next
  case (Inl e)
  with assms obtain year' ms where y: "max_le (keys d) year1 = Inr year'"
    and ms: "map_of d (year' - 1) = Some ms" and mx: "max_le (keys ms) 12 = Inr month2"
    and y2: "year2 = year' - 1"
    by (auto simp: closest_month_def and_then_def getitem_def split: sum.splits option.splits)
  from max_le_Inr [OF y] max_le_Inr [OF mx] ms y2 show ?thesis by simp
qed

lemma closest_day_sound:
  assumes "closest_day year2 month2 day d = Inr (month3, day3)"
  shows "(\<exists>ms ds. map_of d year2 = Some ms \<and> map_of ms month3 = Some ds \<and> day3 \<in> set (keys ds))
         \<and> (month3 < month2 \<or> (month3 = month2 \<and> day3 \<le> day))"
proof (cases "and_then (getitem d year2)
                (\<lambda>ms. and_then (getitem ms month2) (\<lambda>ds. max_le (keys ds) day))")
  case (Inr day')
  then obtain ms ds where ms: "map_of d year2 = Some ms" and ds: "map_of ms month2 = Some ds"
    and mx: "max_le (keys ds) day = Inr day'"
    by (auto simp: and_then_def getitem_def split: option.splits)
  from assms Inr have "month3 = month2" "day3 = day'" by (simp_all add: closest_day_def)
  with ms ds max_le_Inr [OF mx] show ?thesis by simp
next
  case (Inl e)
  with assms obtain ms month' ds n where ms: "map_of d year2 = Some ms"
    and m: "max_le (keys ms) month2 = Inr month'"
    and ds: "map_of ms (month' - 1) = Some ds"
    and mx: "max_le (keys ds) n = Inr day3" and m3: "month3 = month' - 1"
    by (auto simp: closest_day_def and_then_def getitem_def
             split: sum.splits option.splits if_splits)
  from max_le_Inr [OF m] max_le_Inr [OF mx] ms ds m3 show ?thesis by simp
qed

lemma closest_date_indexed_not_later:
  assumes "get_closest_available_date year month day d = Inr found"
  shows "indexed d found \<and> date_le found (year, month, day)"
proof -
  from assms obtain year1 year2 month2 month3 day3 where
    y1: "max_le (keys d) year = Inr year1"
    and cm: "closest_month year1 month d = Inr (year2, month2)"
    and cd: "closest_day year2 month2 day d = Inr (month3, day3)"
    and found: "found = (year2, month3, day3)"
    by (auto simp: get_closest_available_date_def and_then_def split: sum.splits prod.splits)
  from max_le_Inr [OF y1] closest_month_sound [OF cm] closest_day_sound [OF cd]
  show ?thesis
    by (auto simp: found indexed_def date_le_def)
qed

lemma closest_date_exact:
  assumes "indexed d (year, month, day)"
  shows "get_closest_available_date year month day d = Inr (year, month, day)"
proof -
  from assms obtain ms ds where ms: "map_of d year = Some ms"
    and ds: "map_of ms month = Some ds" and day: "day \<in> set (keys ds)"
    by (auto simp: indexed_def split: option.splits)
  have y: "max_le (keys d) year = Inr year"
    using ms by (intro max_le_exact) (simp add: in_keys_iff)
  have m: "max_le (keys ms) month = Inr month"
    using ds by (intro max_le_exact) (simp add: in_keys_iff)
  have dd: "max_le (keys ds) day = Inr day"
    using day by (rule max_le_exact)
  show ?thesis
    by (simp add: get_closest_available_date_def and_then_def y closest_month_def
          closest_day_def getitem_def ms ds m dd)
qed

section \<open>Percentages of get_profits_cost\<close>

lemma lookup_assets_defined:
  "\<forall>ticker \<in> set tickers. map_of inventory ticker \<noteq> None
   \<Longrightarrow> \<exists>assets. lookup_assets h inventory tickers = Inr assets"
  by (induction tickers) (auto simp: getitem_def)

text \<open>
  Claim C6. Whatever the float addition of the running totals does, whenever
  \<open>get_profits_cost\<close> returns, each of its three percentages is the
  profit divided by the cost times 100 when that cost exceeds \<open>EPS\<close>, and 0 when the cost
  is at most \<open>EPS\<close>; a total cost of 0 gives a total percentage of 0. It does return, for
  a non-empty date list, whenever the snapshot store has an inventory at or before the
  last date and the tickers are keys of that inventory: the guarded divisions raise
  nothing.
\<close>

theorem get_profits_cost_percentages:
  "(get_profits_cost fadd s dates tickers = Inr (rp, rc, rpp, up, uc, upp, tp, tc, tpp) \<longrightarrow>
      (rp, rc) = sum_profits_costs fadd (trades s) dates tickers
      \<and> tp = rp + up \<and> tc = rc + uc
      \<and> (rc > EPS \<longrightarrow> rpp = rp / rc * 100) \<and> (rc \<le> EPS \<longrightarrow> rpp = 0)
      \<and> (uc > EPS \<longrightarrow> upp = up / uc * 100) \<and> (uc \<le> EPS \<longrightarrow> upp = 0)
      \<and> (tc > EPS \<longrightarrow> tpp = tp / tc * 100) \<and> (tc \<le> EPS \<longrightarrow> tpp = 0)
      \<and> (tc = 0 \<longrightarrow> tpp = 0))
   \<and> (dates \<noteq> [] \<and> last dates = (year, month, day)
        \<and> get_closest_inventory year month day (inventory_snapshot s) = Inr (Some inventory)
        \<and> (\<forall>ticker \<in> set tickers. map_of inventory ticker \<noteq> None)
      \<longrightarrow> (\<exists>figures. get_profits_cost fadd s dates tickers = Inr figures))"
proof (rule conjI)
  show "get_profits_cost fadd s dates tickers = Inr (rp, rc, rpp, up, uc, upp, tp, tc, tpp) \<longrightarrow>
      (rp, rc) = sum_profits_costs fadd (trades s) dates tickers
      \<and> tp = rp + up \<and> tc = rc + uc
      \<and> (rc > EPS \<longrightarrow> rpp = rp / rc * 100) \<and> (rc \<le> EPS \<longrightarrow> rpp = 0)
      \<and> (uc > EPS \<longrightarrow> upp = up / uc * 100) \<and> (uc \<le> EPS \<longrightarrow> upp = 0)
      \<and> (tc > EPS \<longrightarrow> tpp = tp / tc * 100) \<and> (tc \<le> EPS \<longrightarrow> tpp = 0)
      \<and> (tc = 0 \<longrightarrow> tpp = 0)"
    by (auto simp: get_profits_cost_def and_then_def percent_def Let_def EPS_def
             split: prod.splits if_splits sum.splits option.splits)
next
  show "dates \<noteq> [] \<and> last dates = (year, month, day)
        \<and> get_closest_inventory year month day (inventory_snapshot s) = Inr (Some inventory)
        \<and> (\<forall>ticker \<in> set tickers. map_of inventory ticker \<noteq> None)
      \<longrightarrow> (\<exists>figures. get_profits_cost fadd s dates tickers = Inr figures)"
  proof
    assume a: "dates \<noteq> [] \<and> last dates = (year, month, day)
        \<and> get_closest_inventory year month day (inventory_snapshot s) = Inr (Some inventory)
        \<and> (\<forall>ticker \<in> set tickers. map_of inventory ticker \<noteq> None)"
    then obtain assets where "lookup_assets (heap s) inventory tickers = Inr assets"
      using lookup_assets_defined [of tickers inventory "heap s"] by blast
    with a show "\<exists>figures. get_profits_cost fadd s dates tickers = Inr figures"
      by (simp add: get_profits_cost_def and_then_def Inventory_profits_def Inventory_costs_def
            Let_def split: prod.splits)
  qed
qed

lemma held_snapshot_closest:
  "get_closest_inventory 2020 1 3 (inventory_snapshot held_snapshot) = Inr (Some [(''AAPL'', 1)])"
  by (simp add: get_closest_inventory_def get_closest_available_date_def closest_month_def
        closest_day_def max_le_def keys_def getitem_def and_then_def held_snapshot_def
        InventorySnapshot_get_def)

lemma held_snapshot_figures:
  "get_profits_cost (+) held_snapshot [(2020, 1, 3)] [''AAPL''] =
     Inr (50, 500, 10, 50, 500, 10, 100, 1000, 10)"
  by (simp add: get_profits_cost_def held_snapshot_closest and_then_def)
     (simp add: held_snapshot_def sum_profits_costs_def get_sell_def history_get_def Sell_def
        Inventory_profits_def Inventory_costs_def getitem_def profit_def percent_def EPS_def)

lemma held_snapshot_no_tickers:
  "get_profits_cost (+) held_snapshot [(2020, 1, 3)] [] = Inr (0, 0, 0, 0, 0, 0, 0, 0, 0)"
  by (simp add: get_profits_cost_def held_snapshot_closest and_then_def)
     (simp add: held_snapshot_def sum_profits_costs_def 
        Inventory_profits_def Inventory_costs_def percent_def EPS_def)


theorem get_profits_cost_percentages_witness:
  "get_profits_cost (+) held_snapshot [(2020, 1, 3)] [''AAPL''] =
     Inr (50, 500, 10, 50, 500, 10, 100, 1000, 10)
   \<and> (500 :: real) > EPS \<and> (10 :: real) = 50 / 500 * 100
   \<and> (1000 :: real) > EPS \<and> (10 :: real) = 100 / 1000 * 100
   \<and> [(2020, 1, 3)] \<noteq> ([] :: (int \<times> int \<times> int) list)
   \<and> get_closest_inventory 2020 1 3 (inventory_snapshot held_snapshot) = Inr (Some [(''AAPL'', 1)])
   \<and> map_of [(''AAPL'', 1 :: nat)] ''AAPL'' \<noteq> None
   \<and> (\<exists>figures. get_profits_cost (+) held_snapshot [(2020, 1, 3)] [''AAPL''] = Inr figures)
   \<and> get_profits_cost (+) held_snapshot [(2020, 1, 3)] [] = Inr (0, 0, 0, 0, 0, 0, 0, 0, 0)
   \<and> (0 :: real) \<le> EPS"
proof -
  have known: "\<forall>ticker \<in> set [''AAPL'']. map_of [(''AAPL'', 1 :: nat)] ticker \<noteq> None"
    by simp
  have eps: "(0 :: real) \<le> EPS"
    by (simp add: EPS_def)
  from get_profits_cost_percentages
    [of "(+)" held_snapshot "[(2020, 1, 3)]" "[''AAPL'']" 50 500 10 50 500 10 100 1000 10
        2020 1 3 "[(''AAPL'', 1)]"]
    get_profits_cost_percentages
    [of "(+)" held_snapshot "[(2020, 1, 3)]" "[]" 0 0 0 0 0 0 0 0 0 2020 1 3 "[(''AAPL'', 1)]"]
    held_snapshot_figures held_snapshot_no_tickers held_snapshot_closest known eps
  show ?thesis by simp
qed

section \<open>The trade ledger keeps the first insert\<close>

lemma distinct_keys_setdefault: "distinct (keys d) \<Longrightarrow> distinct (keys (setdefault k v d))"
  by (auto simp: setdefault_def keys_def map_of_eq_None_iff split: option.splits)

lemma setdefault_in_keeps:
  assumes dk: "distinct (keys d)"
    and all: "\<forall>(k', v) \<in> set d. P v"
    and dflt: "P (f dflt)"
    and f: "\<And>v. P v \<Longrightarrow> P (f v)"
  shows "distinct (keys (setdefault_in k dflt f d))
         \<and> (\<forall>(k', v) \<in> set (setdefault_in k dflt f d). P v)"
proof -
  have new: "P (f (case map_of d k of None \<Rightarrow> dflt | Some v \<Rightarrow> v))"
  proof (cases "map_of d k")
    case None
    then show ?thesis using dflt by simp
  next
    case (Some v)
    then have "(k, v) \<in> set d" by (rule map_of_SomeD)
    with all have "P v" by auto
    then show ?thesis using f Some by simp
  qed
  have "set (setdefault_in k dflt f d)
          \<subseteq> insert (k, f (case map_of d k of None \<Rightarrow> dflt | Some v \<Rightarrow> v)) (set d)"
    unfolding setdefault_in_def by (rule set_setitem)
  with new all have "\<forall>(k', v) \<in> set (setdefault_in k dflt f d). P v"
    by auto
  moreover have "distinct (keys (setdefault_in k dflt f d))"
    using dk by (simp add: setdefault_in_def distinct_keys_setitem)
  ultimately show ?thesis by simp
qed

lemma keyed_days_add:
  assumes "keyed_days ds"
  shows "keyed_days (setdefault_in day [] (setdefault ticker e) ds)"
  unfolding keyed_days_def
proof (rule setdefault_in_keeps)
  show "distinct (keys ds)" using assms by (simp add: keyed_days_def)
  show "\<forall>(k', v) \<in> set ds. distinct (keys v)" using assms by (simp add: keyed_days_def)
  show "distinct (keys (setdefault ticker e []))" by (simp add: setdefault_def keys_def)
  show "\<And>v. distinct (keys v) \<Longrightarrow> distinct (keys (setdefault ticker e v))"
    by (rule distinct_keys_setdefault)
qed

lemma keyed_months_add:
  assumes "keyed_months ms"
  shows "keyed_months (setdefault_in month [] (setdefault_in day [] (setdefault ticker e)) ms)"
  unfolding keyed_months_def
proof (rule setdefault_in_keeps)
  show "distinct (keys ms)" using assms by (simp add: keyed_months_def)
  show "\<forall>(k', v) \<in> set ms. keyed_days v" using assms by (simp add: keyed_months_def)
  show "keyed_days (setdefault_in day [] (setdefault ticker e) [])"
    by (rule keyed_days_add) (simp add: keyed_days_def keys_def)
  show "\<And>v. keyed_days v \<Longrightarrow> keyed_days (setdefault_in day [] (setdefault ticker e) v)"
    by (rule keyed_days_add)
qed

lemma well_keyed_add:
  assumes "well_keyed h"
  shows "well_keyed (history_add year month day ticker e h)"
  unfolding well_keyed_def history_add_def
proof (rule setdefault_in_keeps)
  show "distinct (keys h)" using assms by (simp add: well_keyed_def)
  show "\<forall>(k', v) \<in> set h. keyed_months v" using assms by (simp add: well_keyed_def)
  show "keyed_months (setdefault_in month [] (setdefault_in day [] (setdefault ticker e)) [])"
    by (rule keyed_months_add) (simp add: keyed_months_def keys_def)
  show "\<And>v. keyed_months v
      \<Longrightarrow> keyed_months (setdefault_in month [] (setdefault_in day [] (setdefault ticker e)) v)"
    by (rule keyed_months_add)
qed

lemma distinct_tagged:
  assumes dk: "distinct (keys d)"
    and each: "\<And>k v. (k, v) \<in> set d \<Longrightarrow> distinct (map fst (g k v))"
    and tag: "\<And>k v x. (k, v) \<in> set d \<Longrightarrow> x \<in> fst ` set (g k v) \<Longrightarrow> tag x = k"
  shows "distinct (map fst (concat (map (\<lambda>(k, v). g k v) d)))"
  using assms
proof (induction d)
  case Nil
  then show ?case by simp
next
  case (Cons p d)
  obtain k v where p: "p = (k, v)" by (cases p)
  have rest: "distinct (map fst (concat (map (\<lambda>(k, v). g k v) d)))"
  proof (rule Cons.IH)
    show "distinct (keys d)" using Cons.prems(1) by (simp add: keys_def)
    show "\<And>k v. (k, v) \<in> set d \<Longrightarrow> distinct (map fst (g k v))"
      using Cons.prems(2) by simp
    show "\<And>k v x. (k, v) \<in> set d \<Longrightarrow> x \<in> fst ` set (g k v) \<Longrightarrow> tag x = k"
      using Cons.prems(3) by (meson list.set_intros(2))
  qed
  have here: "distinct (map fst (g k v))" using Cons.prems(2) [of k v] by (simp add: p)
  have "tag x = k" if "x \<in> fst ` set (g k v)" for x
    using Cons.prems(3) [of k v x] that by (simp add: p)
  moreover have "tag x \<noteq> k" if "x \<in> fst ` set (concat (map (\<lambda>(k, v). g k v) d))" for x
  proof -
    from that obtain k' v' where kv: "(k', v') \<in> set d" and x: "x \<in> fst ` set (g k' v')"
      by auto
    then have "tag x = k'" using Cons.prems(3) [of k' v' x] by simp
    moreover have "k' \<noteq> k" using kv Cons.prems(1) by (force simp: keys_def p)
    ultimately show ?thesis by simp
  qed
  ultimately have "fst ` set (g k v) \<inter> fst ` set (concat (map (\<lambda>(k, v). g k v) d)) = {}"
    by blast
  with rest here show ?case by (simp add: p)
qed

lemma distinct_entries:
  assumes "well_keyed h"
  shows "distinct (map fst (entries h))"
  unfolding entries_def
proof (rule distinct_tagged [where tag = fst])
  show "distinct (keys h)" using assms by (simp add: well_keyed_def)
next
  fix year ms assume y: "(year, ms) \<in> set h"
  then have km: "keyed_months ms" using assms by (auto simp: well_keyed_def)
  show "distinct (map fst (concat (map (\<lambda>(month, ds).
         concat (map (\<lambda>(day, ts). map (\<lambda>(ticker, e). ((year, month, day, ticker), e)) ts) ds)) ms)))"
  proof (rule distinct_tagged [where tag = "\<lambda>x. fst (snd x)"])
    show "distinct (keys ms)" using km by (simp add: keyed_months_def)
  next
    fix month ds assume m: "(month, ds) \<in> set ms"
    then have kd: "keyed_days ds" using km by (auto simp: keyed_months_def)
    show "distinct (map fst (concat (map (\<lambda>(day, ts).
            map (\<lambda>(ticker, e). ((year, month, day, ticker), e)) ts) ds)))"
    proof (rule distinct_tagged [where tag = "\<lambda>x. fst (snd (snd x))"])
      show "distinct (keys ds)" using kd by (simp add: keyed_days_def)
    next
      fix day ts assume d: "(day, ts) \<in> set ds"
      then have "distinct (keys ts)" using kd by (auto simp: keyed_days_def)
      then show "distinct (map fst (map (\<lambda>(ticker, e). ((year, month, day, ticker), e)) ts))"
        by (simp add: keys_def distinct_map inj_on_def comp_def split_def)
    next
      fix day ts x
      assume "x \<in> fst ` set (map (\<lambda>(ticker, e). ((year, month, day, ticker), e)) ts)"
      then show "fst (snd (snd x)) = day" by auto
    qed
  next
    fix month ds x
    assume "x \<in> fst ` set (concat (map (\<lambda>(day, ts).
            map (\<lambda>(ticker, e). ((year, month, day, ticker), e)) ts) ds))"
    then show "fst (snd x) = month" by auto
  qed
next
  fix year ms x
  assume "x \<in> fst ` set (concat (map (\<lambda>(month, ds).
         concat (map (\<lambda>(day, ts). map (\<lambda>(ticker, e). ((year, month, day, ticker), e)) ts) ds)) ms))"
  then show "fst x = year" by auto
qed

lemma in_concat_map:
  "(k, v) \<in> set d \<Longrightarrow> x \<in> set (g k v) \<Longrightarrow> x \<in> set (concat (map (\<lambda>(k, v). g k v) d))"
  by force

lemma concat_map_cases:
  "x \<in> set (concat (map (\<lambda>(k, v). g k v) d)) \<Longrightarrow> \<exists>k v. (k, v) \<in> set d \<and> x \<in> set (g k v)"
  by auto

lemma entries_mem:
  "((year, month, day, ticker), e) \<in> set (entries h) \<longleftrightarrow>
      (\<exists>ms ds ts. (year, ms) \<in> set h \<and> (month, ds) \<in> set ms \<and> (day, ts) \<in> set ds
         \<and> (ticker, e) \<in> set ts)"
proof
  assume "((year, month, day, ticker), e) \<in> set (entries h)"
  then obtain y ms where 1: "(y, ms) \<in> set h" and "((year, month, day, ticker), e) \<in> set (concat (map (\<lambda>(month, ds).
         concat (map (\<lambda>(day, ts).
           map (\<lambda>(ticker, e). ((y, month, day, ticker), e)) ts) ds)) ms))"
    unfolding entries_def by (blast dest: concat_map_cases)
  then obtain m ds where 2: "(m, ds) \<in> set ms" and "((year, month, day, ticker), e) \<in> set (concat (map (\<lambda>(day, ts).
           map (\<lambda>(ticker, e). ((y, m, day, ticker), e)) ts) ds))"
    by (blast dest: concat_map_cases)
  then obtain d ts where 3: "(d, ts) \<in> set ds" and 
    "((year, month, day, ticker), e) \<in> set (map (\<lambda>(ticker, e). ((y, m, d, ticker), e)) ts)"
    by (blast dest: concat_map_cases)
  then have "y = year \<and> m = month \<and> d = day \<and> (ticker, e) \<in> set ts"
    by auto
  with 1 2 3 show "\<exists>ms ds ts. (year, ms) \<in> set h \<and> (month, ds) \<in> set ms \<and> (day, ts) \<in> set ds
         \<and> (ticker, e) \<in> set ts"
    by blast
next
  assume "\<exists>ms ds ts. (year, ms) \<in> set h \<and> (month, ds) \<in> set ms \<and> (day, ts) \<in> set ds
         \<and> (ticker, e) \<in> set ts"
  then obtain ms ds ts where a: "(year, ms) \<in> set h" "(month, ds) \<in> set ms"
      "(day, ts) \<in> set ds" "(ticker, e) \<in> set ts" by blast
  have "((year, month, day, ticker), e) \<in> set (map (\<lambda>(ticker, e). ((year, month, day, ticker), e)) ts)"
    using a(4) by (simp add: image_iff) (rule bexI [of _ "(ticker, e)"], simp_all)
  from in_concat_map [where g = "\<lambda>day ts. map (\<lambda>(ticker, e). ((year, month, day, ticker), e)) ts", OF a(3) this]
  have "((year, month, day, ticker), e) \<in> set (concat (map (\<lambda>(day, ts).
           map (\<lambda>(ticker, e). ((year, month, day, ticker), e)) ts) ds))" .
  from in_concat_map [where g = "\<lambda>month ds. concat (map (\<lambda>(day, ts).
           map (\<lambda>(ticker, e). ((year, month, day, ticker), e)) ts) ds)", OF a(2) this]
  have "((year, month, day, ticker), e) \<in> set (concat (map (\<lambda>(month, ds).
         concat (map (\<lambda>(day, ts).
           map (\<lambda>(ticker, e). ((year, month, day, ticker), e)) ts) ds)) ms))" .
  from in_concat_map [where g = "\<lambda>year ms. concat (map (\<lambda>(month, ds).
         concat (map (\<lambda>(day, ts).
           map (\<lambda>(ticker, e). ((year, month, day, ticker), e)) ts) ds)) ms)", OF a(1) this]
  show "((year, month, day, ticker), e) \<in> set (entries h)"
    unfolding entries_def .
qed


lemma entries_iff:
  assumes "well_keyed h"
  shows "((year, month, day, ticker), e) \<in> set (entries h)
           \<longleftrightarrow> history_get year month day ticker h = Some e"
proof -
  have dh: "distinct (map fst h)" using assms by (simp add: well_keyed_def keys_def)
  have km: "keyed_months ms" if "(year, ms) \<in> set h" for year ms
    using assms that by (auto simp: well_keyed_def)
  have kd: "keyed_days ds" if "keyed_months ms" "(month, ds) \<in> set ms" for ms month ds
    using that by (auto simp: keyed_months_def)
  have dm: "distinct (map fst ms)" if "(year, ms) \<in> set h" for year ms
    using km [OF that] by (simp add: keyed_months_def keys_def)
  have dd: "distinct (map fst ds)" if "(year, ms) \<in> set h" "(month, ds) \<in> set ms" for year ms month ds
    using kd [OF km [OF that(1)] that(2)] by (simp add: keyed_days_def keys_def)
  have dt: "distinct (map fst ts)"
    if "(year, ms) \<in> set h" "(month, ds) \<in> set ms" "(day, ts) \<in> set ds" for year ms month ds day ts
    using kd [OF km [OF that(1)] that(2)] that(3) by (auto simp: keyed_days_def keys_def)
  show ?thesis
  proof
    assume "((year, month, day, ticker), e) \<in> set (entries h)"
    then obtain ms ds ts where a: "(year, ms) \<in> set h" "(month, ds) \<in> set ms"
      "(day, ts) \<in> set ds" "(ticker, e) \<in> set ts"
      unfolding entries_mem by blast
    then show "history_get year month day ticker h = Some e"
      using dh dm [OF a(1)] dd [OF a(1,2)] dt [OF a(1,2,3)]
      by (simp add: history_get_def)
  next
    assume g: "history_get year month day ticker h = Some e"
    then obtain ms ds ts where "map_of h year = Some ms" "map_of ms month = Some ds"
      "map_of ds day = Some ts" "map_of ts ticker = Some e"
      by (auto simp: history_get_def split: option.splits)
    then have "(year, ms) \<in> set h \<and> (month, ds) \<in> set ms \<and> (day, ts) \<in> set ds
         \<and> (ticker, e) \<in> set ts"
      by (auto dest: map_of_SomeD)
    then show "((year, month, day, ticker), e) \<in> set (entries h)"
      unfolding entries_mem by blast
  qed
qed

lemma setdefault_present: "map_of d k = Some v \<Longrightarrow> setdefault k v' d = d"
  by (simp add: setdefault_def)

lemma setdefault_in_same:
  "map_of d k = Some v \<Longrightarrow> f v = v \<Longrightarrow> setdefault_in k dflt f d = d"
  by (simp add: setdefault_in_def setitem_def update_triv)

lemma history_add_ignored:
  assumes "history_get year month day ticker h \<noteq> None"
  shows "history_add year month day ticker e h = h"
proof -
  from assms obtain ms ds ts e' where ms: "map_of h year = Some ms"
    and ds: "map_of ms month = Some ds" and ts: "map_of ds day = Some ts"
    and e': "map_of ts ticker = Some e'"
    by (auto simp: history_get_def split: option.splits)
  have 1: "setdefault ticker e ts = ts" using e' by (rule setdefault_present)
  have 2: "setdefault_in day [] (setdefault ticker e) ds = ds"
    using ts 1 by (rule setdefault_in_same)
  have 3: "setdefault_in month [] (setdefault_in day [] (setdefault ticker e)) ms = ms"
    using ds 2 by (rule setdefault_in_same)
  show ?thesis
    unfolding history_add_def using ms 3 by (rule setdefault_in_same)
qed

lemma get_buy_apply_call:
  "get_buy year month day ticker (apply_call c th) =
     (case get_buy year month day ticker th of
        Some b \<Rightarrow> Some b
      | None \<Rightarrow> first_buy year month day ticker [c])"
  by (cases c) (auto simp: get_buy_def add_buy_def add_sell_def history_get_add split: option.splits)

lemma get_sell_apply_call:
  "get_sell year month day ticker (apply_call c th) =
     (case get_sell year month day ticker th of
        Some s \<Rightarrow> Some s
      | None \<Rightarrow> first_sell year month day ticker [c])"
  by (cases c) (auto simp: get_sell_def add_buy_def add_sell_def history_get_add split: option.splits)

lemma get_buy_apply_calls:
  "get_buy year month day ticker (apply_calls calls th) =
     (case get_buy year month day ticker th of
        Some b \<Rightarrow> Some b
      | None \<Rightarrow> first_buy year month day ticker calls)"
proof (induction calls arbitrary: th)
  case Nil
  then show ?case by (simp add: apply_calls_def split: option.splits)
next
  case (Cons c calls)
  have step: "apply_calls (c # calls) th = apply_calls calls (apply_call c th)"
    by (simp add: apply_calls_def)
  show ?case
    unfolding step Cons.IH [of "apply_call c th"] get_buy_apply_call
    by (cases c) (simp_all split: option.splits)
qed

lemma get_sell_apply_calls:
  "get_sell year month day ticker (apply_calls calls th) =
     (case get_sell year month day ticker th of
        Some s \<Rightarrow> Some s
      | None \<Rightarrow> first_sell year month day ticker calls)"
proof (induction calls arbitrary: th)
  case Nil
  then show ?case by (simp add: apply_calls_def split: option.splits)
next
  case (Cons c calls)
  have step: "apply_calls (c # calls) th = apply_calls calls (apply_call c th)"
    by (simp add: apply_calls_def)
  show ?case
    unfolding step Cons.IH [of "apply_call c th"] get_sell_apply_call
    by (cases c) (simp_all split: option.splits)
qed

lemma well_keyed_apply_calls:
  "well_keyed (buy_history th) \<Longrightarrow> well_keyed (sell_history th)
   \<Longrightarrow> well_keyed (buy_history (apply_calls calls th))
       \<and> well_keyed (sell_history (apply_calls calls th))"
proof (induction calls arbitrary: th)
  case Nil
  then show ?case by (simp add: apply_calls_def)
next
  case (Cons c calls)
  have step: "well_keyed (buy_history (apply_call c th)) \<and> well_keyed (sell_history (apply_call c th))"
    using Cons.prems by (cases c) (simp_all add: add_buy_def add_sell_def well_keyed_add)
  have "apply_calls (c # calls) th = apply_calls calls (apply_call c th)"
    by (simp add: apply_calls_def)
  with Cons.IH [of "apply_call c th"] step show ?case by simp
qed

lemma well_keyed_init:
  "well_keyed (buy_history TradeHistory_init) \<and> well_keyed (sell_history TradeHistory_init)"
  by (simp add: TradeHistory_init_def well_keyed_def keys_def)

text \<open>
  Claim C8. After any sequence of \<open>add_buy\<close> and \<open>add_sell\<close> calls on an empty ledger,
  the buy (sell) stored under a key is the first buy (sell) the sequence inserted under
  that key; the ledger lists no key twice, so it holds at most one buy and at most one
  sell per key, namely that first one; and a further insert under a key that is already
  taken leaves the ledger as it is.
\<close>

theorem ledger_keeps_first_insert:
  "get_buy year month day ticker (apply_calls calls TradeHistory_init)
     = first_buy year month day ticker calls
   \<and> get_sell year month day ticker (apply_calls calls TradeHistory_init)
     = first_sell year month day ticker calls
   \<and> distinct (map fst (entries (buy_history (apply_calls calls TradeHistory_init))))
   \<and> distinct (map fst (entries (sell_history (apply_calls calls TradeHistory_init))))
   \<and> (((year, month, day, ticker), b)
         \<in> set (entries (buy_history (apply_calls calls TradeHistory_init)))
       \<longleftrightarrow> first_buy year month day ticker calls = Some b)
   \<and> (((year, month, day, ticker), s)
         \<in> set (entries (sell_history (apply_calls calls TradeHistory_init)))
       \<longleftrightarrow> first_sell year month day ticker calls = Some s)
   \<and> (first_buy year month day (buy_ticker b') calls \<noteq> None \<longrightarrow>
         add_buy year month day b' (apply_calls calls TradeHistory_init)
           = apply_calls calls TradeHistory_init)
   \<and> (first_sell year month day (sell_ticker s') calls \<noteq> None \<longrightarrow>
         add_sell year month day s' (apply_calls calls TradeHistory_init)
           = apply_calls calls TradeHistory_init)"
proof -
  let ?th = "apply_calls calls TradeHistory_init"
  have gb: "get_buy y m d t ?th = first_buy y m d t calls" for y m d t
    by (simp add: get_buy_apply_calls)
       (simp add: get_buy_def TradeHistory_init_def history_get_def)
  have gs: "get_sell y m d t ?th = first_sell y m d t calls" for y m d t
    by (simp add: get_sell_apply_calls)
       (simp add: get_sell_def TradeHistory_init_def history_get_def)
  have wk: "well_keyed (buy_history ?th)" "well_keyed (sell_history ?th)"
    using well_keyed_apply_calls [of TradeHistory_init calls] well_keyed_init by simp_all
  have eb: "((year, month, day, ticker), b) \<in> set (entries (buy_history ?th))
       \<longleftrightarrow> first_buy year month day ticker calls = Some b"
    using entries_iff [OF wk(1), of year month day ticker b] gb [of year month day ticker]
    by (simp add: get_buy_def)
  have es: "((year, month, day, ticker), s) \<in> set (entries (sell_history ?th))
       \<longleftrightarrow> first_sell year month day ticker calls = Some s"
    using entries_iff [OF wk(2), of year month day ticker s] gs [of year month day ticker]
    by (simp add: get_sell_def)
  have ib: "first_buy year month day (buy_ticker b') calls \<noteq> None \<longrightarrow>
         add_buy year month day b' ?th = ?th"
    using gb [of year month day "buy_ticker b'"]
      history_add_ignored [of year month day "buy_ticker b'" "buy_history ?th" b']
    by (simp add: add_buy_def get_buy_def)
  have isl: "first_sell year month day (sell_ticker s') calls \<noteq> None \<longrightarrow>
         add_sell year month day s' ?th = ?th"
    using gs [of year month day "sell_ticker s'"]
      history_add_ignored [of year month day "sell_ticker s'" "sell_history ?th" s']
    by (simp add: add_sell_def get_sell_def)
  show ?thesis
    using gb gs distinct_entries [OF wk(1)] distinct_entries [OF wk(2)] eb es ib isl
    by blast
qed


theorem ledger_keeps_first_insert_witness:
  "first_buy 2020 1 2 ''AAPL'' same_day_calls = Some (Buy ''AAPL'' 100 10)
   \<and> get_buy 2020 1 2 ''AAPL'' (apply_calls same_day_calls TradeHistory_init)
       = Some (Buy ''AAPL'' 100 10)
   \<and> ((2020, 1, 2, ''AAPL''), Buy ''AAPL'' 100 10)
       \<in> set (entries (buy_history (apply_calls same_day_calls TradeHistory_init)))
   \<and> first_buy 2020 1 2 (buy_ticker (Buy ''AAPL'' 100 7)) same_day_calls \<noteq> None
   \<and> add_buy 2020 1 2 (Buy ''AAPL'' 100 7) (apply_calls same_day_calls TradeHistory_init)
       = apply_calls same_day_calls TradeHistory_init"
proof -
  have first: "first_buy 2020 1 2 ''AAPL'' same_day_calls = Some (Buy ''AAPL'' 100 10)"
    by (simp add: same_day_calls_def Buy_def)
  have tick: "buy_ticker (Buy ''AAPL'' 100 7) = ''AAPL''"
    by (simp add: Buy_def)
  from ledger_keeps_first_insert
    [of 2020 1 2 "''AAPL''" same_day_calls "Buy ''AAPL'' 100 10" _ "Buy ''AAPL'' 100 7"]
    first tick
  show ?thesis by simp
qed

section \<open>Snapshots are deep copies, and the first commit wins\<close>

lemma deepcopy_assets_sound:
  assumes "\<forall>(t, r) \<in> set rest. r < length h0"
    and "\<exists>ext. hh = h0 @ ext"
    and "\<forall>(r, r') \<in> set memo. r < length h0 \<and> length h0 \<le> r' \<and> r' < length hh \<and> hh ! r' = h0 ! r"
    and "deepcopy_assets rest memo hh = (copied, h')"
  shows "(\<exists>ext. h' = hh @ ext)
         \<and> list_all2 (\<lambda>(t, r) (t', r'). t' = t \<and> length h0 \<le> r' \<and> r' < length h' \<and> h' ! r' = h0 ! r)
              rest copied"
  using assms
proof (induction rest arbitrary: memo hh copied h')
  case Nil
  then show ?case by simp
next
  case (Cons p rest)
  obtain t r where p: "p = (t, r)" by (cases p)
  from Cons.prems(1) have r: "r < length h0" and rest: "\<forall>(t, r) \<in> set rest. r < length h0"
    by (auto simp: p)
  from Cons.prems(2) obtain ext where hh: "hh = h0 @ ext" by blast
  show ?case
  proof (cases "map_of memo r")
    case (Some r')
    obtain c1 h1 where rec: "deepcopy_assets rest memo hh = (c1, h1)"
      by (cases "deepcopy_assets rest memo hh")
    from Cons.prems(4) have res: "copied = (t, r') # c1" "h' = h1"
      by (simp_all add: p Some rec)
    from Cons.IH [OF rest Cons.prems(2) Cons.prems(3) rec]
    obtain ext1 where h1: "h1 = hh @ ext1"
      and all: "list_all2 (\<lambda>(t, r) (t', r'). t' = t \<and> length h0 \<le> r' \<and> r' < length h1 \<and> h1 ! r' = h0 ! r) rest c1"
      by blast
    from Some have "(r, r') \<in> set memo" by (rule map_of_SomeD)
    with Cons.prems(3) have m: "length h0 \<le> r'" "r' < length hh" "hh ! r' = h0 ! r"
      by auto
    have "h1 ! r' = h0 ! r" using m h1 by (simp add: nth_append)
    moreover have "r' < length h1" using m h1 by simp
    ultimately show ?thesis using all m h1 by (auto simp: res p)
  next
    case None
    let ?hh1 = "hh @ [hh ! r]"
    let ?memo1 = "(r, length hh) # memo"
    obtain c1 h1 where rec: "deepcopy_assets rest ?memo1 ?hh1 = (c1, h1)"
      by (cases "deepcopy_assets rest ?memo1 ?hh1")
    from Cons.prems(4) have res: "copied = (t, length hh) # c1" "h' = h1"
      by (simp_all add: p None rec)
    have ext1: "\<exists>ext. ?hh1 = h0 @ ext" using hh by simp
    have hr: "hh ! r = h0 ! r" using r hh by (simp add: nth_append)
    have memo1: "\<forall>(r, r') \<in> set ?memo1. r < length h0 \<and> length h0 \<le> r' \<and> r' < length ?hh1 \<and> ?hh1 ! r' = h0 ! r"
      using Cons.prems(3) r hh hr by (auto simp: nth_append)
    from Cons.IH [OF rest ext1 memo1 rec]
    obtain ext2 where h1: "h1 = ?hh1 @ ext2"
      and all: "list_all2 (\<lambda>(t, r) (t', r'). t' = t \<and> length h0 \<le> r' \<and> r' < length h1 \<and> h1 ! r' = h0 ! r) rest c1"
      by blast
    have "h1 ! length hh = h0 ! r" using h1 hr by (simp add: nth_append)
    moreover have "length hh < length h1" using h1 by simp
    moreover have "length h0 \<le> length hh" using hh by simp
    moreover have "\<exists>ext. h1 = hh @ ext" using h1 by simp
    ultimately show ?thesis using all by (auto simp: res p)
  qed
qed

lemma deepcopy_sound:
  assumes wf: "\<forall>(t, r) \<in> set inventory. r < length h"
    and res: "deepcopy inventory h = (copy, h')"
  shows "(\<exists>ext. h' = h @ ext)
         \<and> list_all2 (\<lambda>(t, r) (t', r'). t' = t \<and> length h \<le> r' \<and> r' < length h' \<and> h' ! r' = h ! r)
              inventory copy"
  using deepcopy_assets_sound [of inventory h h "[]" copy h'] wf res
  by (simp add: deepcopy_def)

lemma view_of_copy:
  assumes "list_all2 (\<lambda>(t, r) (t', r'). t' = t \<and> length h \<le> r' \<and> r' < length h' \<and> h' ! r' = h ! r)
              inventory copy"
    and "\<forall>r. length h \<le> r \<and> r < length h' \<longrightarrow> h'' ! r = h' ! r"
  shows "view h'' copy = view h inventory"
  using assms(1)
proof (induction rule: list_all2_induct)
  case Nil
  then show ?case by (simp add: view_def)
next
  case (Cons x xs y ys)
  then show ?case using assms(2) by (auto simp: view_def)
qed

lemma snapshot_get_commit:
  "InventorySnapshot_get y' m' d'
     (setdefault_in y [] (setdefault_in m [] (setdefault d c)) snap) =
     (if y' = y \<and> m' = m \<and> d' = d \<and> InventorySnapshot_get y m d snap = None
      then Some c else InventorySnapshot_get y' m' d' snap)"
  by (auto simp: InventorySnapshot_get_def map_of_setdefault_in map_of_setdefault
           split: option.splits)

lemma snapshot_commit_ignored:
  assumes "InventorySnapshot_get y m d snap = Some old"
  shows "setdefault_in y [] (setdefault_in m [] (setdefault d c)) snap = snap"
proof -
  from assms obtain ms ds where ms: "map_of snap y = Some ms"
    and ds: "map_of ms m = Some ds" and old: "map_of ds d = Some old"
    by (auto simp: InventorySnapshot_get_def split: option.splits)
  have 1: "setdefault d c ds = ds" using old by (rule setdefault_present)
  have 2: "setdefault_in m [] (setdefault d c) ms = ms" using ds 1 by (rule setdefault_in_same)
  show ?thesis using ms 2 by (rule setdefault_in_same)
qed

lemma view_extended:
  assumes "\<forall>(t, r) \<in> set inventory. r < length h"
  shows "view (h @ ext) inventory = view h inventory"
  using assms by (induction inventory) (auto simp: view_def nth_append)

text \<open>
  Claim C7. \<open>take_snapshot\<close> of an inventory whose references are allocated, on a heap
  \<open>h\<close>, leaves every existing object as it is (the heap only grows). If the date holds
  no snapshot, the stored one shows the attribute values the inventory has at the commit,
  and it keeps showing them in every later heap that agrees with the new one on the
  objects allocated by the commit, that is after any assignments to the objects that
  existed before, those of the live inventory among them. If the date already holds a
  snapshot, the store is unchanged, the old snapshot stays and shows what it showed.
\<close>

theorem snapshot_is_independent_and_first_wins:
  assumes wf: "\<forall>(ticker, r) \<in> set inventory. r < length h"
    and res: "take_snapshot year month day inventory (snap, h) = (snap', h')"
  shows "(InventorySnapshot_get year month day snap = None \<longrightarrow>
           (\<exists>copy. InventorySnapshot_get year month day snap' = Some copy
              \<and> view h' copy = view h inventory
              \<and> (\<forall>h''. length h' \<le> length h''
                      \<and> (\<forall>r. length h \<le> r \<and> r < length h' \<longrightarrow> h'' ! r = h' ! r)
                    \<longrightarrow> view h'' copy = view h inventory)))
       \<and> (\<forall>old. InventorySnapshot_get year month day snap = Some old \<longrightarrow>
             snap' = snap \<and> InventorySnapshot_get year month day snap' = Some old
             \<and> ((\<forall>(ticker, r) \<in> set old. r < length h) \<longrightarrow> view h' old = view h old))
       \<and> take (length h) h' = h"
proof -
  obtain copy where dc: "deepcopy inventory h = (copy, h')"
    and snap': "snap' = setdefault_in year [] (setdefault_in month [] (setdefault day copy)) snap"
    using res by (auto simp: take_snapshot_def split: prod.splits)
  from deepcopy_sound [OF wf dc] obtain ext where h': "h' = h @ ext"
    and rel: "list_all2 (\<lambda>(t, r) (t', r'). t' = t \<and> length h \<le> r' \<and> r' < length h' \<and> h' ! r' = h ! r)
              inventory copy"
    by blast
  have fresh: "InventorySnapshot_get year month day snap = None \<longrightarrow>
           (\<exists>copy. InventorySnapshot_get year month day snap' = Some copy
              \<and> view h' copy = view h inventory
              \<and> (\<forall>h''. length h' \<le> length h''
                      \<and> (\<forall>r. length h \<le> r \<and> r < length h' \<longrightarrow> h'' ! r = h' ! r)
                    \<longrightarrow> view h'' copy = view h inventory))"
  proof
    assume none: "InventorySnapshot_get year month day snap = None"
    have "InventorySnapshot_get year month day snap' = Some copy"
      by (simp add: snap' snapshot_get_commit none)
    moreover have "view h' copy = view h inventory"
      using view_of_copy [OF rel, of h'] by simp
    moreover have "\<forall>h''. length h' \<le> length h''
                      \<and> (\<forall>r. length h \<le> r \<and> r < length h' \<longrightarrow> h'' ! r = h' ! r)
                    \<longrightarrow> view h'' copy = view h inventory"
      using view_of_copy [OF rel] by blast
    ultimately show "\<exists>copy. InventorySnapshot_get year month day snap' = Some copy
              \<and> view h' copy = view h inventory
              \<and> (\<forall>h''. length h' \<le> length h''
                      \<and> (\<forall>r. length h \<le> r \<and> r < length h' \<longrightarrow> h'' ! r = h' ! r)
                    \<longrightarrow> view h'' copy = view h inventory)"
      by blast
  qed
  have kept: "\<forall>old. InventorySnapshot_get year month day snap = Some old \<longrightarrow>
             snap' = snap \<and> InventorySnapshot_get year month day snap' = Some old
             \<and> ((\<forall>(ticker, r) \<in> set old. r < length h) \<longrightarrow> view h' old = view h old)"
  proof (intro allI impI)
    fix old assume old: "InventorySnapshot_get year month day snap = Some old"
    have same: "snap' = snap" unfolding snap' using old by (rule snapshot_commit_ignored)
    show "snap' = snap \<and> InventorySnapshot_get year month day snap' = Some old
             \<and> ((\<forall>(ticker, r) \<in> set old. r < length h) \<longrightarrow> view h' old = view h old)"
      using same old view_extended [of old h ext] by (simp add: h')
  qed
  from fresh kept show ?thesis by (simp add: h')
qed


lemma commit_day3:
  "take_snapshot 2020 1 3 [(''AAPL'', 0)] ([], [held_asset]) = (day3_snapshot, [held_asset, held_asset])"
  by (simp add: take_snapshot_def deepcopy_def setdefault_in_def setdefault_def setitem_def
        day3_snapshot_def)

lemma commit_day3_again:
  "take_snapshot 2020 1 3 [(''AAPL'', 0)] (day3_snapshot, [sold_asset, held_asset]) =
     (day3_snapshot, [sold_asset, held_asset, sold_asset])"
  by (simp add: take_snapshot_def deepcopy_def setdefault_in_def setdefault_def setitem_def
        day3_snapshot_def)

theorem snapshot_is_independent_and_first_wins_witness:
  "(0 :: nat) < length [held_asset]
   \<and> take_snapshot 2020 1 3 [(''AAPL'', 0)] ([], [held_asset])
       = (day3_snapshot, [held_asset, held_asset])
   \<and> InventorySnapshot_get 2020 1 3 [] = None
   \<and> InventorySnapshot_get 2020 1 3 day3_snapshot = Some [(''AAPL'', 1)]
   \<and> view [sold_asset, held_asset] [(''AAPL'', 1)] = view [held_asset] [(''AAPL'', 0)]
   \<and> take_snapshot 2020 1 3 [(''AAPL'', 0)] (day3_snapshot, [sold_asset, held_asset])
       = (day3_snapshot, [sold_asset, held_asset, sold_asset])
   \<and> view [sold_asset, held_asset, sold_asset] [(''AAPL'', 1)]
       = view [sold_asset, held_asset] [(''AAPL'', 1)]"
proof -
  have wf: "\<forall>(ticker, r) \<in> set [(''AAPL'', 0 :: nat)]. r < length [held_asset]"
    by simp
  have wf2: "\<forall>(ticker, r) \<in> set [(''AAPL'', 0 :: nat)]. r < length [sold_asset, held_asset]"
    by simp
  have none: "InventorySnapshot_get 2020 1 3 [] = None"
    by (simp add: InventorySnapshot_get_def)
  have stored: "InventorySnapshot_get 2020 1 3 day3_snapshot = Some [(''AAPL'', 1)]"
    by (simp add: InventorySnapshot_get_def day3_snapshot_def)
  from snapshot_is_independent_and_first_wins [OF wf commit_day3] none stored
  have indep: "\<forall>h''. length [held_asset, held_asset] \<le> length h''
      \<and> (\<forall>r. length [held_asset] \<le> r \<and> r < length [held_asset, held_asset]
             \<longrightarrow> h'' ! r = [held_asset, held_asset] ! r)
      \<longrightarrow> view h'' [(''AAPL'', 1)] = view [held_asset] [(''AAPL'', 0)]"
    by auto
  have agree: "\<forall>r. length [held_asset] \<le> r \<and> r < length [held_asset, held_asset]
             \<longrightarrow> [sold_asset, held_asset] ! r = [held_asset, held_asset] ! r"
    by (auto simp: less_Suc_eq)
  from indep agree
  have v1: "view [sold_asset, held_asset] [(''AAPL'', 1)] = view [held_asset] [(''AAPL'', 0)]"
    by (metis length_Cons order_refl)
  from snapshot_is_independent_and_first_wins [OF wf2 commit_day3_again] stored
  have v2: "view [sold_asset, held_asset, sold_asset] [(''AAPL'', 1)]
       = view [sold_asset, held_asset] [(''AAPL'', 1)]"
    by simp
  from commit_day3 none stored v1 commit_day3_again v2 show ?thesis by simp
qed

end
